theory Spec2Isabelle
  imports Complex_Main
begin

section \<open>Data model\<close>

text \<open>
  The program is one Python module, \<^verbatim>\<open>sync.py\<close>. It talks to three things outside
  itself: the local filesystem, the Drive service and the clock. The embedding keeps
  the mutable part of that world in the record \<open>world\<close> and the answers of the
  outside (what a library call returns, whether a request fails) in the record
  \<open>env\<close>, which no function changes.

  A path and a Drive identifier are strings. A naive \<^verbatim>\<open>datetime\<close> is its count of
  microseconds, a \<^verbatim>\<open>timedelta\<close> a difference of two of them. A POSIX time stamp
  (\<^verbatim>\<open>os.path.getmtime\<close>, \<^verbatim>\<open>datetime.timestamp()\<close>) is a Python float; the
  program only compares them, and the comparison of two finite floats is the
  comparison of the rationals they denote, so they are rationals here.
\<close>

type_synonym path = string
type_synonym datetime = int
type_synonym timedelta = int

datatype file_kind = Regular | Directory

record local_file =
  kind :: file_kind
  mtime :: rat
  content :: string

text \<open>An entry of the listing that \<^verbatim>\<open>files().list\<close> returns, with the three fields
  the query asks for (\<^verbatim>\<open>fields="files(id, name, modifiedTime)"\<close>).\<close>

record drive_file =
  file_id :: string
  name :: string
  modifiedTime :: string

text \<open>The configuration document: the two entries the program reads. The mapping is
  a Python dict, kept as the list of its items in insertion order (its keys are
  distinct).\<close>

record config =
  folder_id :: string
  file_mappings :: "(string \<times> path) list"

datatype level = INFO | WARNING | ERROR

type_synonym log_entry = "level \<times> string"

datatype error =
    OSError string
  | ValueError string
  | JSONDecodeError string
  | HttpError string

text \<open>
  The trace is the instrumentation of the model: it records, in order, every call of
  \<^verbatim>\<open>load_config\<close>, every request to the Drive service (with the arguments the
  source passes) and every \<^verbatim>\<open>time.sleep\<close>. A request is recorded when it is
  issued, whether it then succeeds or not.
\<close>

datatype event =
    LoadConfig
  | ListFiles string
  | Create string string path
  | Update string path
  | GetMedia string
  | Sleep nat

record env =
  clock :: "nat \<Rightarrow> datetime"
  strptime :: "string \<Rightarrow> datetime option"
  timestamp :: "datetime \<Rightarrow> rat"
  strftime :: "datetime \<Rightarrow> string"
  str_datetime :: "datetime \<Rightarrow> string"
  json_load :: "string \<Rightarrow> config option"
  zip_encode :: "(string \<times> local_file) list \<Rightarrow> string"
  fails :: "event list \<Rightarrow> event \<Rightarrow> bool"
  listing :: "event list \<Rightarrow> string \<Rightarrow> drive_file list"
  received :: "event list \<Rightarrow> string \<Rightarrow> string"
  cannot_open :: "path \<Rightarrow> bool"
  zip_rejects :: "path \<Rightarrow> local_file \<Rightarrow> bool"
  stamp :: "event list \<Rightarrow> path \<Rightarrow> rat"

text \<open>
  The fields of \<open>env\<close> are the library calls and the outside world, taken as
  parameters:
  \<^item> \<open>clock E n\<close> is the \<open>n\<close>-th reading of the wall clock (\<^verbatim>\<open>datetime.now()\<close>);
  \<^item> \<open>strptime E s\<close> is \<^verbatim>\<open>datetime.strptime(s, '%Y-%m-%dT%H:%M:%S.%fZ')\<close>, \<open>None\<close>
    where it raises \<^verbatim>\<open>ValueError\<close>; \<open>timestamp E d\<close> is \<^verbatim>\<open>d.timestamp()\<close>;
  \<^item> \<open>strftime E d\<close> is \<^verbatim>\<open>d.strftime('%Y%m%d_%H%M%S')\<close> and \<open>str_datetime E d\<close> is
    \<^verbatim>\<open>str(d)\<close>;
  \<^item> \<open>json_load E s\<close> is \<^verbatim>\<open>json.load\<close> on a file of content \<open>s\<close>, \<open>None\<close> where
    it raises; \<open>zip_encode E\<close> is the encoding \<^verbatim>\<open>zipfile\<close> writes;
  \<^item> \<open>fails E tr ev\<close> says whether the request \<open>ev\<close>, issued after the history \<open>tr\<close>,
    raises; \<open>listing E tr folder\<close> is what a successful listing of \<open>folder\<close> returns
    then, and \<open>received E tr i\<close> the bytes the chunk loop of a download of \<open>i\<close> writes;
  \<^item> \<open>cannot_open E p\<close> says that opening \<open>p\<close> for writing raises for a reason that the
    flat filesystem of the model does not show (the parent directory is missing, the
    access rights forbid it); \<open>zip_rejects E p f\<close> says that \<^verbatim>\<open>ZipFile.write\<close> raises on
    the file \<open>f\<close> at \<open>p\<close> (a time stamp before 1980, a file that cannot be read);
  \<^item> \<open>stamp E tr p\<close> is the modification time that the system gives to \<open>p\<close> when it is
    written after the history \<open>tr\<close>.
\<close>

record world =
  fs :: "path \<rightharpoonup> local_file"
  logs :: "log_entry list"
  trace :: "event list"
  ticks :: nat

text \<open>A call returns its value or raises, and leaves a world behind in both cases.\<close>

type_synonym 'a result = "(error + 'a) \<times> world"

section \<open>Constants of the module\<close>

definition CONFIG_FILE :: path where
  "CONFIG_FILE = ''./config.json''"

definition BACKUP_FOLDER_ID :: string where
  "BACKUP_FOLDER_ID = ''1WYgGglbHxds7Ajy2Omdpk8WvyN1u69xY''"

definition BACKUP_INTERVAL_DAYS :: int where
  "BACKUP_INTERVAL_DAYS = 10"

text \<open>\<^verbatim>\<open>timedelta(days=n)\<close> in microseconds.\<close>

definition timedelta_days :: "int \<Rightarrow> timedelta" where
  "timedelta_days n = n * 86400000000"

section \<open>Library calls\<close>

definition str_error :: "error \<Rightarrow> string" where
  "str_error e = (case e of OSError s \<Rightarrow> s | ValueError s \<Rightarrow> s
                   | JSONDecodeError s \<Rightarrow> s | HttpError s \<Rightarrow> s)"

definition logging :: "level \<Rightarrow> string \<Rightarrow> world \<Rightarrow> world" where
  "logging lv msg w = w\<lparr>logs := logs w @ [(lv, msg)]\<rparr>"

text \<open>\<^verbatim>\<open>except Exception as e: logging.error(...); raise\<close>\<close>

definition reraise_logged :: "(error \<Rightarrow> string) \<Rightarrow> 'a result \<Rightarrow> 'a result" where
  "reraise_logged msg r =
     (case r of (Inl e, w) \<Rightarrow> (Inl e, logging ERROR (msg e) w)
              | (Inr v, w) \<Rightarrow> (Inr v, w))"

definition datetime_now :: "env \<Rightarrow> world \<Rightarrow> datetime \<times> world" where
  "datetime_now E w = (clock E (ticks w), w\<lparr>ticks := Suc (ticks w)\<rparr>)"

definition time_sleep :: "nat \<Rightarrow> world \<Rightarrow> world" where
  "time_sleep n w = w\<lparr>trace := trace w @ [Sleep n]\<rparr>"

definition os_path_basename :: "path \<Rightarrow> string" where
  "os_path_basename p = rev (takeWhile (\<lambda>c. c \<noteq> CHR ''/'') (rev p))"

definition os_path_join :: "path \<Rightarrow> path \<Rightarrow> path" where
  "os_path_join a b =
     (if b \<noteq> [] \<and> hd b = CHR ''/'' then b
      else if a = [] \<or> last a = CHR ''/'' then a @ b
      else a @ ''/'' @ b)"

definition os_path_exists :: "world \<Rightarrow> path \<Rightarrow> bool" where
  "os_path_exists w p = (fs w p \<noteq> None)"

definition os_path_isfile :: "world \<Rightarrow> path \<Rightarrow> bool" where
  "os_path_isfile w p = (case fs w p of None \<Rightarrow> False | Some f \<Rightarrow> kind f = Regular)"

definition os_path_getmtime :: "world \<Rightarrow> path \<Rightarrow> error + rat" where
  "os_path_getmtime w p =
     (case fs w p of None \<Rightarrow> Inl (OSError (''No such file or directory: '' @ p))
                   | Some f \<Rightarrow> Inr (mtime f))"

text \<open>
  The filesystem of the model is flat: opening a path for reading fails when nothing
  is there or a directory is; opening it for writing fails when a directory is there,
  or when the outside says so (\<open>cannot_open\<close>). A file that is written gets its
  modification time from the outside (\<open>stamp\<close>); the clock of the program is not read.
\<close>

definition open_rb :: "world \<Rightarrow> path \<Rightarrow> error + string" where
  "open_rb w p =
     (case fs w p of
        None \<Rightarrow> Inl (OSError (''No such file or directory: '' @ p))
      | Some f \<Rightarrow> (if kind f = Directory then Inl (OSError (''Is a directory: '' @ p))
                   else Inr (content f)))"

definition put_file :: "env \<Rightarrow> path \<Rightarrow> string \<Rightarrow> world \<Rightarrow> world" where
  "put_file E p bytes w =
     w\<lparr>fs := (fs w)(p \<mapsto> \<lparr>kind = Regular, mtime = stamp E (trace w) p, content = bytes\<rparr>)\<rparr>"

definition write_file :: "env \<Rightarrow> path \<Rightarrow> string \<Rightarrow> world \<Rightarrow> unit result" where
  "write_file E p bytes w =
     (if cannot_open E p then (Inl (OSError (''No such file or directory: '' @ p)), w)
      else
        (case fs w p of
           Some f \<Rightarrow>
             (if kind f = Directory then (Inl (OSError (''Is a directory: '' @ p)), w)
              else (Inr (), put_file E p bytes w))
         | None \<Rightarrow> (Inr (), put_file E p bytes w)))"

definition os_remove :: "path \<Rightarrow> world \<Rightarrow> unit result" where
  "os_remove p w =
     (case fs w p of
        None \<Rightarrow> (Inl (OSError (''No such file or directory: '' @ p)), w)
      | Some f \<Rightarrow> (if kind f = Directory then (Inl (OSError (''Is a directory: '' @ p)), w)
                   else (Inr (), w\<lparr>fs := (fs w)(p := None)\<rparr>)))"

text \<open>A request to the Drive service: recorded, then answered by the outside.\<close>

definition request :: "env \<Rightarrow> event \<Rightarrow> world \<Rightarrow> unit result" where
  "request E ev w =
     (if fails E (trace w) ev
      then (Inl (HttpError ''request failed''), w\<lparr>trace := trace w @ [ev]\<rparr>)
      else (Inr (), w\<lparr>trace := trace w @ [ev]\<rparr>))"

section \<open>The functions of sync.py\<close>

definition load_config :: "env \<Rightarrow> world \<Rightarrow> config result" where
  "load_config E w =
     reraise_logged (\<lambda>e. ''Failed to load configuration file: '' @ str_error e)
       (let w0 = w\<lparr>trace := trace w @ [LoadConfig]\<rparr> in
        case open_rb w0 CONFIG_FILE of
          Inl e \<Rightarrow> (Inl e, w0)
        | Inr bytes \<Rightarrow>
            (let w1 = logging INFO ''Configuration file loaded successfully.'' w0 in
             case json_load E bytes of
               None \<Rightarrow> (Inl (JSONDecodeError ''Expecting value''), w1)
             | Some c \<Rightarrow> (Inr c, w1)))"

definition list_files_in_drive :: "env \<Rightarrow> string \<Rightarrow> world \<Rightarrow> drive_file list result" where
  "list_files_in_drive E folder w =
     reraise_logged (\<lambda>e. ''Failed to list files in Drive: '' @ str_error e)
       (case request E (ListFiles folder) w of
          (Inl e, w') \<Rightarrow> (Inl e, w')
        | (Inr _, w') \<Rightarrow>
            (Inr (listing E (trace w) folder),
             logging INFO (''Listed files in Google Drive folder ID '' @ folder @ ''.'') w'))"

text \<open>\<^verbatim>\<open>MediaFileUpload(file_path, resumable=True)\<close> opens the file for reading.\<close>

definition MediaFileUpload :: "world \<Rightarrow> path \<Rightarrow> error + unit" where
  "MediaFileUpload w p = (case open_rb w p of Inl e \<Rightarrow> Inl e | Inr _ \<Rightarrow> Inr ())"

text \<open>\<^verbatim>\<open>datetime.strptime(f['modifiedTime'], ...)\<close>\<close>

definition parse_modified :: "env \<Rightarrow> drive_file \<Rightarrow> error + datetime" where
  "parse_modified E f =
     (case strptime E (modifiedTime f) of
        None \<Rightarrow> Inl (ValueError (''time data does not match format: '' @ modifiedTime f))
      | Some d \<Rightarrow> Inr d)"

definition upload_file :: "env \<Rightarrow> path \<Rightarrow> drive_file list \<Rightarrow> string \<Rightarrow> world \<Rightarrow> unit result" where
  "upload_file E file_path drive_files folder w =
     (let file_name = os_path_basename file_path in
      case os_path_getmtime w file_path of
        Inl e \<Rightarrow> (Inl e, w)
      | Inr local_modified_time \<Rightarrow>
          reraise_logged (\<lambda>e. ''Failed to upload file '' @ file_name @ '': '' @ str_error e)
            (case find (\<lambda>f. name f = file_name) drive_files of
               Some drive_file \<Rightarrow>
                 (case parse_modified E drive_file of
                    Inl e \<Rightarrow> (Inl e, w)
                  | Inr d \<Rightarrow>
                      (if local_modified_time \<le> timestamp E d
                       then (Inr (), logging INFO (''No upload needed for '' @ file_name
                                       @ '', Drive version is up-to-date.'') w)
                       else
                         (case MediaFileUpload w file_path of
                            Inl e \<Rightarrow> (Inl e, w)
                          | Inr _ \<Rightarrow>
                              (case request E (Update (file_id drive_file) file_path) w of
                                 (Inl e, w') \<Rightarrow> (Inl e, w')
                               | (Inr _, w') \<Rightarrow>
                                   (Inr (), logging INFO (''Updated file: '' @ file_name
                                              @ '' in Google Drive.'') w')))))
             | None \<Rightarrow>
                 (case MediaFileUpload w file_path of
                    Inl e \<Rightarrow> (Inl e, w)
                  | Inr _ \<Rightarrow>
                      (case request E (Create file_name folder file_path) w of
                         (Inl e, w') \<Rightarrow> (Inl e, w')
                       | (Inr _, w') \<Rightarrow>
                           (Inr (), logging INFO (''Uploaded new file: '' @ file_name
                                      @ '' to Google Drive.'') w')))))"

text \<open>
  Lines 98 to 104 of \<^verbatim>\<open>download_file\<close>: the request is built by \<^verbatim>\<open>get_media\<close> (the
  download call the trace records), the local path is opened for writing, and the
  chunk loop writes what it receives until the library reports the end or raises. The
  loop is the library's; the model takes its outcome from the outside.
\<close>

definition fetch_media :: "env \<Rightarrow> string \<Rightarrow> drive_file \<Rightarrow> path \<Rightarrow> world \<Rightarrow> unit result" where
  "fetch_media E file_name drive_file local_file_path w =
     (let w1 = w\<lparr>trace := trace w @ [GetMedia (file_id drive_file)]\<rparr> in
      case write_file E local_file_path (received E (trace w) (file_id drive_file)) w1 of
        (Inl e, w2) \<Rightarrow> (Inl e, w2)
      | (Inr _, w2) \<Rightarrow>
          (if fails E (trace w) (GetMedia (file_id drive_file))
           then (Inl (HttpError ''download failed''), w2)
           else (Inr (), logging INFO (''Downloaded file: '' @ file_name
                            @ '' from Google Drive.'') w2)))"

definition download_file :: "env \<Rightarrow> string \<Rightarrow> drive_file \<Rightarrow> world \<Rightarrow> unit result" where
  "download_file E file_name drive_file w =
     (case load_config E w of
        (Inl e, w1) \<Rightarrow> (Inl e, w1)
      | (Inr config, w1) \<Rightarrow>
          (case map_of (file_mappings config) file_name of
             None \<Rightarrow> (Inr (), logging WARNING (''File '' @ file_name
                                 @ '' is not mapped for local sync.'') w1)
           | Some local_file_path \<Rightarrow>
               (if local_file_path = []
                then (Inr (), logging WARNING (''File '' @ file_name
                                 @ '' is not mapped for local sync.'') w1)
                else
                  reraise_logged
                    (\<lambda>e. ''Failed to download file '' @ file_name @ '': '' @ str_error e)
                    (case parse_modified E drive_file of
                       Inl e \<Rightarrow> (Inl e, w1)
                     | Inr d \<Rightarrow>
                         (if os_path_exists w1 local_file_path
                          then
                            (case os_path_getmtime w1 local_file_path of
                               Inl e \<Rightarrow> (Inl e, w1)
                             | Inr local_modified_time \<Rightarrow>
                                 (if local_modified_time \<ge> timestamp E d
                                  then (Inr (), logging INFO (''No download needed for ''
                                           @ file_name @ '', local version is up-to-date.'') w1)
                                  else fetch_media E file_name drive_file local_file_path w1))
                          else fetch_media E file_name drive_file local_file_path w1)))))"

text \<open>The loop of lines 117 to 120: the first record with the greatest time.\<close>

fun most_recent :: "env \<Rightarrow> drive_file list \<Rightarrow> drive_file option \<Rightarrow> error + drive_file option" where
  "most_recent E [] recent_backup = Inr recent_backup"
| "most_recent E (f # rest) recent_backup =
     (case parse_modified E f of
        Inl e \<Rightarrow> Inl e
      | Inr modified_time \<Rightarrow>
          (case recent_backup of
             None \<Rightarrow> most_recent E rest (Some f)
           | Some r \<Rightarrow>
               (case parse_modified E r of
                  Inl e \<Rightarrow> Inl e
                | Inr t \<Rightarrow> (if modified_time > t then most_recent E rest (Some f)
                            else most_recent E rest recent_backup))))"

text \<open>
  The \<^verbatim>\<open>with zipfile.ZipFile(...)\<close> block, lines 136 to 139. The archive is opened
  for writing, which creates it; then every mapped path that exists is added under
  its basename, in the order of the mapping. \<open>add_to_zip\<close> is the loop: it returns the
  entries written and the error of the first \<^verbatim>\<open>write\<close> that raises, if one does.
  Leaving the block closes the archive in both cases, so the entries written so far
  stay on disk when the loop raises.
\<close>

fun add_to_zip :: "env \<Rightarrow> (path \<rightharpoonup> local_file) \<Rightarrow> path list
    \<Rightarrow> (string \<times> local_file) list \<Rightarrow> error option \<times> (string \<times> local_file) list" where
  "add_to_zip E files [] written = (None, written)"
| "add_to_zip E files (file_path # rest) written =
     (case files file_path of
        None \<Rightarrow> add_to_zip E files rest written
      | Some f \<Rightarrow>
          (if zip_rejects E file_path f
           then (Some (ValueError (''cannot add to the archive: '' @ file_path)), written)
           else add_to_zip E files rest (written @ [(os_path_basename file_path, f)])))"

definition write_zip :: "env \<Rightarrow> path \<Rightarrow> path list \<Rightarrow> world \<Rightarrow> unit result" where
  "write_zip E local_backup_path files_to_backup w =
     (case write_file E local_backup_path [] w of
        (Inl e, w1) \<Rightarrow> (Inl e, w1)
      | (Inr _, w1) \<Rightarrow>
          (case add_to_zip E (fs w1) files_to_backup [] of
             (Some e, written) \<Rightarrow>
               (Inl e, put_file E local_backup_path (zip_encode E written) w1)
           | (None, written) \<Rightarrow>
               (Inr (), put_file E local_backup_path (zip_encode E written) w1)))"

text \<open>The \<^verbatim>\<open>try\<close> block of \<^verbatim>\<open>create_backup\<close>, lines 131 to 150.\<close>

definition create_backup_try :: "env \<Rightarrow> path \<Rightarrow> drive_file list \<Rightarrow> world \<Rightarrow> unit result" where
  "create_backup_try E local_backup_path backup_files_in_drive w =
     reraise_logged (\<lambda>e. ''Failed to create or upload backup: '' @ str_error e)
       (case load_config E w of
          (Inl e, w1) \<Rightarrow> (Inl e, w1)
        | (Inr config, w1) \<Rightarrow>
            (case write_zip E local_backup_path (map snd (file_mappings config)) w1 of
               (Inl e, w2) \<Rightarrow> (Inl e, w2)
             | (Inr _, w2) \<Rightarrow>
                 (case upload_file E local_backup_path backup_files_in_drive BACKUP_FOLDER_ID
                         (logging INFO (''Backup created locally: '' @ local_backup_path) w2) of
                    (Inl e, w3) \<Rightarrow> (Inl e, w3)
                  | (Inr _, w3) \<Rightarrow>
                      (case os_remove local_backup_path w3 of
                         (Inl e, w4) \<Rightarrow> (Inl e, w4)
                       | (Inr _, w4) \<Rightarrow>
                           (Inr (), logging INFO ''Local backup file deleted after upload.'' w4)))))"

definition backup_path :: "env \<Rightarrow> datetime \<Rightarrow> path" where
  "backup_path E now = os_path_join ''/tmp'' (''backup_'' @ strftime E now @ ''.zip'')"

definition create_backup :: "env \<Rightarrow> world \<Rightarrow> unit result" where
  "create_backup E w =
     (let (now, w0) = datetime_now E w in
      case list_files_in_drive E BACKUP_FOLDER_ID w0 of
        (Inl e, w1) \<Rightarrow> (Inl e, w1)
      | (Inr backup_files_in_drive, w1) \<Rightarrow>
          (case most_recent E backup_files_in_drive None of
             Inl e \<Rightarrow> (Inl e, w1)
           | Inr None \<Rightarrow> create_backup_try E (backup_path E now) backup_files_in_drive w1
           | Inr (Some recent_backup) \<Rightarrow>
               (case parse_modified E recent_backup of
                  Inl e \<Rightarrow> (Inl e, w1)
                | Inr recent_backup_time \<Rightarrow>
                    (if now - recent_backup_time < timedelta_days BACKUP_INTERVAL_DAYS
                     then (Inr (), logging INFO (''Skipping backup: Last backup ''
                              @ str_datetime E recent_backup_time
                              @ '' is within the interval.'') w1)
                     else create_backup_try E (backup_path E now) backup_files_in_drive w1))))"

text \<open>The two loops of \<^verbatim>\<open>sync\<close>.\<close>

fun upload_all :: "env \<Rightarrow> path list \<Rightarrow> drive_file list \<Rightarrow> string \<Rightarrow> world \<Rightarrow> unit result" where
  "upload_all E [] drive_files folder w = (Inr (), w)"
| "upload_all E (file_path # rest) drive_files folder w =
     (if os_path_isfile w file_path
      then (case upload_file E file_path drive_files folder w of
              (Inl e, w') \<Rightarrow> (Inl e, w')
            | (Inr _, w') \<Rightarrow> upload_all E rest drive_files folder w')
      else upload_all E rest drive_files folder w)"

fun download_all :: "env \<Rightarrow> drive_file list \<Rightarrow> world \<Rightarrow> unit result" where
  "download_all E [] w = (Inr (), w)"
| "download_all E (drive_file # rest) w =
     (case download_file E (name drive_file) drive_file w of
        (Inl e, w') \<Rightarrow> (Inl e, w')
      | (Inr _, w') \<Rightarrow> download_all E rest w')"

definition sync :: "env \<Rightarrow> world \<Rightarrow> unit result" where
  "sync E w =
     reraise_logged (\<lambda>e. ''Failed during sync operation: '' @ str_error e)
       (case load_config E w of
          (Inl e, w1) \<Rightarrow> (Inl e, w1)
        | (Inr config, w1) \<Rightarrow>
            (case list_files_in_drive E (folder_id config) w1 of
               (Inl e, w2) \<Rightarrow> (Inl e, w2)
             | (Inr drive_files, w2) \<Rightarrow>
                 (case upload_all E (map snd (file_mappings config)) drive_files
                         (folder_id config) w2 of
                    (Inl e, w3) \<Rightarrow> (Inl e, w3)
                  | (Inr _, w3) \<Rightarrow>
                      (case download_all E drive_files w3 of
                         (Inl e, w4) \<Rightarrow> (Inl e, w4)
                       | (Inr _, w4) \<Rightarrow>
                           (Inr (), logging INFO ''Sync operation completed.'' w4)))))"

text \<open>
  The main block. \<open>main_init\<close> is line 173; \<open>main_iter\<close> is one pass through the body of
  \<^verbatim>\<open>while True\<close>, returning the new \<^verbatim>\<open>last_backup_time\<close>, or the error that leaves
  the loop (nothing catches it, so the process ends); \<open>main_loop\<close> runs at most \<open>n\<close>
  passes, and \<open>None\<close> says that the loop is still running after them.
\<close>

definition main_init :: "env \<Rightarrow> world \<Rightarrow> datetime \<times> world" where
  "main_init E w =
     (let (now, w') = datetime_now E w in (now - timedelta_days BACKUP_INTERVAL_DAYS, w'))"

definition idle :: "world \<Rightarrow> world" where
  "idle w = time_sleep 300 (logging INFO ''Sync complete. Waiting 5 minutes before next sync.'' w)"

definition main_backup :: "env \<Rightarrow> world \<Rightarrow> datetime result" where
  "main_backup E w =
     (case create_backup E (logging INFO ''Creating backup...'' w) of
        (Inl e, w3) \<Rightarrow> (Inl e, w3)
      | (Inr _, w3) \<Rightarrow> (let (now', w4) = datetime_now E w3 in (Inr now', idle w4)))"

definition main_iter :: "env \<Rightarrow> datetime \<Rightarrow> world \<Rightarrow> datetime result" where
  "main_iter E last_backup_time w =
     (case sync E (logging INFO ''Starting sync operation...'' w) of
        (Inl e, w1) \<Rightarrow> (Inl e, w1)
      | (Inr _, w1) \<Rightarrow>
          (let (now, w2) = datetime_now E w1 in
           if now - last_backup_time \<ge> timedelta_days BACKUP_INTERVAL_DAYS
           then main_backup E w2
           else (Inr last_backup_time, idle w2)))"

fun main_loop :: "env \<Rightarrow> nat \<Rightarrow> datetime \<Rightarrow> world \<Rightarrow> error option \<times> world" where
  "main_loop E 0 last_backup_time w = (None, w)"
| "main_loop E (Suc n) last_backup_time w =
     (case main_iter E last_backup_time w of
        (Inl e, w') \<Rightarrow> (Some e, w')
      | (Inr last', w') \<Rightarrow> main_loop E n last' w')"

section \<open>Reading the trace\<close>

text \<open>Kinds of events, and \<open>adds P tr tr'\<close>: the trace \<open>tr'\<close> is \<open>tr\<close> followed by
  events that all satisfy \<open>P\<close>.\<close>

definition is_upload :: "event \<Rightarrow> bool" where
  "is_upload ev = (case ev of Create n f p \<Rightarrow> True | Update i p \<Rightarrow> True | _ \<Rightarrow> False)"

definition is_download :: "event \<Rightarrow> bool" where
  "is_download ev = (case ev of GetMedia i \<Rightarrow> True | _ \<Rightarrow> False)"

definition is_sleep :: "event \<Rightarrow> bool" where
  "is_sleep ev = (case ev of Sleep n \<Rightarrow> True | _ \<Rightarrow> False)"

definition adds :: "(event \<Rightarrow> bool) \<Rightarrow> event list \<Rightarrow> event list \<Rightarrow> bool" where
  "adds P tr tr' = (\<exists>evs. tr' = tr @ evs \<and> list_all P evs)"

text \<open>
  \<open>concerns k i p ev\<close>: the event \<open>ev\<close> is a transfer request for the remote name \<open>k\<close>,
  the record \<open>i\<close> or the local path \<open>p\<close>. \<open>sole_entry cfg k p\<close>: the mapping sends \<open>k\<close>
  to \<open>p\<close>, \<open>k\<close> is the basename of \<open>p\<close>, no other entry has a path of that basename or
  the path \<open>p\<close>, and the configuration file is no mapped path. \<open>sole_record E dfs r k d\<close>:
  \<open>r\<close> is a record of the listing \<open>dfs\<close> named \<open>k\<close>, its time parses to \<open>d\<close>, and the
  names and the identifiers of the listing are distinct.
\<close>

definition concerns :: "string \<Rightarrow> string \<Rightarrow> path \<Rightarrow> event \<Rightarrow> bool" where
  "concerns k i p ev =
     (case ev of Create n fo q \<Rightarrow> n = k \<or> q = p
               | Update j q \<Rightarrow> j = i \<or> q = p
               | GetMedia j \<Rightarrow> j = i
               | _ \<Rightarrow> False)"

definition sole_entry :: "config \<Rightarrow> string \<Rightarrow> path \<Rightarrow> bool" where
  "sole_entry cfg k p =
     (map_of (file_mappings cfg) k = Some p \<and> os_path_basename p = k
      \<and> (\<forall>e\<in>set (file_mappings cfg). (os_path_basename (snd e) = k \<or> snd e = p) \<longrightarrow> e = (k, p))
      \<and> CONFIG_FILE \<notin> snd ` set (file_mappings cfg))"

definition sole_record :: "env \<Rightarrow> drive_file list \<Rightarrow> drive_file \<Rightarrow> string \<Rightarrow> datetime \<Rightarrow> bool" where
  "sole_record E dfs r k d =
     (r \<in> set dfs \<and> name r = k \<and> strptime E (modifiedTime r) = Some d
      \<and> distinct (map name dfs) \<and> distinct (map file_id dfs))"

section \<open>Worlds that the statements name\<close>

text \<open>\<open>listed E w\<close> is the world in which \<open>create_backup\<close>, started in \<open>w\<close>, has read
  the clock and listed the backup folder; \<open>zipped E p cfg w\<close> is the world in which its
  \<^verbatim>\<open>try\<close> block has loaded the configuration and written the archive \<open>p\<close>, at the
  point where it calls \<open>upload_file\<close>.\<close>

definition listed :: "env \<Rightarrow> world \<Rightarrow> world" where
  "listed E w = snd (list_files_in_drive E BACKUP_FOLDER_ID (snd (datetime_now E w)))"

definition zipped :: "env \<Rightarrow> path \<Rightarrow> config \<Rightarrow> world \<Rightarrow> world" where
  "zipped E local_backup_path cfg w =
     logging INFO (''Backup created locally: '' @ local_backup_path)
       (snd (write_zip E local_backup_path (map snd (file_mappings cfg))
               (snd (load_config E w))))"

section \<open>A concrete outside, for evaluating the functions\<close>

text \<open>
  The scenario of the specification: the mapping \<^verbatim>\<open>{"a.txt": "/local/a.txt"}\<close>, a
  local file modified on day 5 and a remote record \<^verbatim>\<open>a.txt\<close> modified on day 3.
  The demo clock counts microseconds from the last midnight of 2023 and stands on
  day 20; its time stamps are seconds of the same count, so that 1980 begins at
  \<open>- 1388448000\<close>. Every path can be opened, and files written are stamped day 20.
\<close>

definition demo_config :: config where
  "demo_config = \<lparr>folder_id = ''F'', file_mappings = [(''a.txt'', ''/local/a.txt'')]\<rparr>"

definition demo_remote :: drive_file where
  "demo_remote = \<lparr>file_id = ''id-a'', name = ''a.txt'',
                   modifiedTime = ''2024-01-03T00:00:00.000Z''\<rparr>"

definition demo_strptime :: "string \<Rightarrow> datetime option" where
  "demo_strptime s =
     (if s = ''2024-01-03T00:00:00.000Z'' then Some (timedelta_days 3)
      else if s = ''2024-01-05T00:00:00.000Z'' then Some (timedelta_days 5)
      else if s = ''2024-01-15T00:00:00.000Z'' then Some (timedelta_days 15)
      else None)"

definition demo_env :: env where
  "demo_env = \<lparr>
     clock = (\<lambda>n. timedelta_days 20 + int n),
     strptime = demo_strptime,
     timestamp = (\<lambda>d. of_int d / 1000000),
     strftime = (\<lambda>d. ''20240120_000000''),
     str_datetime = (\<lambda>d. ''2024-01-15 00:00:00''),
     json_load = (\<lambda>s. if s = ''cfg'' then Some demo_config else None),
     zip_encode = (\<lambda>entries. concat (map fst entries)),
     fails = (\<lambda>tr ev. False),
     listing = (\<lambda>tr folder. if folder = ''F'' then [demo_remote] else []),
     received = (\<lambda>tr i. ''remote bytes''),
     cannot_open = (\<lambda>p. False),
     zip_rejects = (\<lambda>p f. mtime f < - 1388448000),
     stamp = (\<lambda>tr p. 20 * 86400)\<rparr>"

definition demo_local :: local_file where
  "demo_local = \<lparr>kind = Regular, mtime = 5 * 86400, content = ''local bytes''\<rparr>"

definition demo_config_file :: local_file where
  "demo_config_file = \<lparr>kind = Regular, mtime = 0, content = ''cfg''\<rparr>"

definition demo_world :: world where
  "demo_world = \<lparr>
     fs = [CONFIG_FILE \<mapsto> demo_config_file, ''/local/a.txt'' \<mapsto> demo_local],
     logs = [], trace = [], ticks = 0\<rparr>"

definition demo_backup :: drive_file where
  "demo_backup = \<lparr>file_id = ''id-b'', name = ''backup_20240115_000000.zip'',
                   modifiedTime = ''2024-01-15T00:00:00.000Z''\<rparr>"

definition demo_env_backup :: env where
  "demo_env_backup = demo_env\<lparr>listing := (\<lambda>tr folder. [demo_backup])\<rparr>"


definition demo_env_down :: env where
  "demo_env_down = demo_env\<lparr>fails := (\<lambda>tr ev. True)\<rparr>"





definition demo_config_twins :: config where
  "demo_config_twins =
     \<lparr>folder_id = ''F'', file_mappings = [(''a.txt'', ''/x/a.txt''), (''b.txt'', ''/y/a.txt'')]\<rparr>"

definition demo_env_twins :: env where
  "demo_env_twins =
     demo_env\<lparr>json_load := (\<lambda>s. if s = ''cfg'' then Some demo_config_twins else None)\<rparr>"

definition demo_world_twins :: world where
  "demo_world_twins = \<lparr>
     fs = [CONFIG_FILE \<mapsto> demo_config_file,
           ''/x/a.txt'' \<mapsto> demo_local\<lparr>mtime := 3 * 86400\<rparr>,
           ''/y/a.txt'' \<mapsto> demo_local],
     logs = [], trace = [], ticks = 0\<rparr>"

definition demo_config_blank :: config where
  "demo_config_blank = \<lparr>folder_id = ''F'', file_mappings = [(''a.txt'', [])]\<rparr>"

definition demo_env_blank :: env where
  "demo_env_blank =
     demo_env\<lparr>json_load := (\<lambda>s. if s = ''cfg'' then Some demo_config_blank else None)\<rparr>"

definition demo_world_1979 :: world where
  "demo_world_1979 =
     demo_world\<lparr>fs := (fs demo_world)(''/local/a.txt'' \<mapsto> demo_local\<lparr>mtime := - 1400000000\<rparr>)\<rparr>"

definition demo_env_back :: env where
  "demo_env_back = demo_env\<lparr>clock := (\<lambda>n. timedelta_days 20 - int n)\<rparr>"

section \<open>Basic facts\<close>

lemmas world_defs = logging_def reraise_logged_def request_def open_rb_def
  MediaFileUpload_def parse_modified_def os_path_getmtime_def os_path_exists_def
  os_path_isfile_def write_file_def put_file_def

lemmas demo_defs = demo_config_def demo_remote_def demo_strptime_def demo_env_def
  demo_local_def demo_config_file_def demo_world_def CONFIG_FILE_def timedelta_days_def

subsection \<open>Single calls\<close>

lemma load_config_ok:
  assumes "fs w CONFIG_FILE = Some cf" and "kind cf = Regular"
    and "json_load E (content cf) = Some cfg"
  shows "load_config E w = (Inr cfg, w\<lparr>trace := trace w @ [LoadConfig],
           logs := logs w @ [(INFO, ''Configuration file loaded successfully.'')]\<rparr>)"
  using assms by (simp add: load_config_def world_defs Let_def)

lemma upload_file_fs [simp]:
  "fs (snd (upload_file E file_path drive_files folder w)) = fs w"
  by (simp add: upload_file_def world_defs Let_def split: option.splits sum.splits)

lemma upload_file_ticks [simp]:
  "ticks (snd (upload_file E file_path drive_files folder w)) = ticks w"
  by (simp add: upload_file_def world_defs Let_def split: option.splits sum.splits)

lemma upload_file_trace:
  assumes "fs w file_path = Some f" and "kind f = Regular"
  shows "trace (snd (upload_file E file_path drive_files folder w)) = trace w @
      (case find (\<lambda>r. name r = os_path_basename file_path) drive_files of
         None \<Rightarrow> [Create (os_path_basename file_path) folder file_path]
       | Some r \<Rightarrow>
           (case strptime E (modifiedTime r) of
              None \<Rightarrow> []
            | Some d \<Rightarrow> if mtime f > timestamp E d then [Update (file_id r) file_path] else []))"
  using assms
  by (simp add: upload_file_def world_defs Let_def split: option.splits)

text \<open>Whatever the world, \<open>upload_file\<close> adds no download request to the trace, and
  neither does the upload loop.\<close>

lemma upload_file_no_download:
  "\<exists>evs. trace (snd (upload_file E file_path drive_files folder w)) = trace w @ evs
         \<and> (\<forall>i. GetMedia i \<notin> set evs) \<and> LoadConfig \<notin> set evs"
  by (simp add: upload_file_def world_defs Let_def split: option.splits sum.splits)


lemma load_config_trace [simp]:
  "trace (snd (load_config E w)) = trace w @ [LoadConfig]"
  by (simp add: load_config_def world_defs Let_def split: option.splits sum.splits)

lemma load_config_fs [simp]: "fs (snd (load_config E w)) = fs w"
  by (simp add: load_config_def world_defs Let_def split: option.splits sum.splits)

lemma write_zip_trace [simp]: "trace (snd (write_zip E p ps w)) = trace w"
  by (simp add: write_zip_def world_defs split: option.splits sum.splits prod.splits)

lemma os_remove_trace [simp]: "trace (snd (os_remove p w)) = trace w"
  by (simp add: os_remove_def split: option.splits)

lemma upload_file_trace_prefix:
  "\<exists>evs. trace (snd (upload_file E file_path drive_files folder w)) = trace w @ evs"
  using upload_file_no_download [of E file_path drive_files folder w] by blast

lemma create_backup_try_trace:
  "\<exists>evs. trace (snd (create_backup_try E p dfs w)) = trace w @ LoadConfig # evs"
proof -
  obtain r1 w1 where l: "load_config E w = (r1, w1)" by (cases "load_config E w")
  have t1: "trace w1 = trace w @ [LoadConfig]" by (metis load_config_trace l snd_conv)
  show ?thesis
  proof (cases r1)
    case (Inl e)
    then show ?thesis using l t1 by (simp add: create_backup_try_def world_defs)
  next
    case (Inr cfg)
    obtain r2 w2 where z: "write_zip E p (map snd (file_mappings cfg)) w1 = (r2, w2)"
      by (cases "write_zip E p (map snd (file_mappings cfg)) w1")
    have t2: "trace w2 = trace w @ [LoadConfig]" by (metis write_zip_trace z t1 snd_conv)
    show ?thesis
    proof (cases r2)
      case (Inl e)
      then show ?thesis using l Inr z t2 by (simp add: create_backup_try_def world_defs)
    next
      case r2: (Inr u)
      let ?w2 = "logging INFO (''Backup created locally: '' @ p) w2"
      obtain r3 w3 where u: "upload_file E p dfs BACKUP_FOLDER_ID ?w2 = (r3, w3)"
        by (cases "upload_file E p dfs BACKUP_FOLDER_ID ?w2")
      obtain evs where t3: "trace w3 = trace w @ LoadConfig # evs"
        using upload_file_trace_prefix [of E p dfs BACKUP_FOLDER_ID ?w2] u t2
        by (auto simp: logging_def)
      show ?thesis
      proof (cases r3)
        case (Inl e)
        then show ?thesis using l Inr z r2 u t3 by (simp add: create_backup_try_def world_defs)
      next
        case r3: (Inr u3)
        obtain r4 w4 where rm: "os_remove p w3 = (r4, w4)" by (cases "os_remove p w3")
        have t4: "trace w4 = trace w @ LoadConfig # evs" by (metis os_remove_trace rm t3 snd_conv)
        show ?thesis using l Inr z r2 u r3 rm t4
          by (cases r4) (simp_all add: create_backup_try_def world_defs)
      qed
    qed
  qed
qed

subsection \<open>The decision of the backup\<close>

lemma most_recent_max:
  assumes "\<forall>f\<in>set files. strptime E (modifiedTime f) \<noteq> None"
    and "strptime E (modifiedTime r0) \<noteq> None"
  shows "\<exists>r. most_recent E files (Some r0) = Inr (Some r) \<and> r \<in> insert r0 (set files)
           \<and> (\<forall>f\<in>insert r0 (set files).
                the (strptime E (modifiedTime f)) \<le> the (strptime E (modifiedTime r)))"
  using assms
proof (induction files arbitrary: r0)
  case Nil
  then show ?case by simp
next
  case (Cons f rest)
  obtain t where t: "strptime E (modifiedTime f) = Some t" using Cons.prems by auto
  obtain t0 where t0: "strptime E (modifiedTime r0) = Some t0" using Cons.prems by auto
  show ?case
  proof (cases "t > t0")
    case True
    obtain r where r: "most_recent E rest (Some f) = Inr (Some r)" "r \<in> insert f (set rest)"
      "\<forall>g\<in>insert f (set rest). the (strptime E (modifiedTime g)) \<le> the (strptime E (modifiedTime r))"
      using Cons.IH [of f] Cons.prems t by auto
    then show ?thesis using t t0 True by (auto simp: parse_modified_def)
  next
    case False
    obtain r where r: "most_recent E rest (Some r0) = Inr (Some r)" "r \<in> insert r0 (set rest)"
      "\<forall>g\<in>insert r0 (set rest). the (strptime E (modifiedTime g)) \<le> the (strptime E (modifiedTime r))"
      using Cons.IH [of r0] Cons.prems by auto
    then show ?thesis using t t0 False by (auto simp: parse_modified_def)
  qed
qed

lemma most_recent_None:
  assumes "\<forall>f\<in>set files. strptime E (modifiedTime f) \<noteq> None"
  shows "(files = [] \<longrightarrow> most_recent E files None = Inr None) \<and>
    (files \<noteq> [] \<longrightarrow> (\<exists>r t. most_recent E files None = Inr (Some r) \<and> r \<in> set files
       \<and> strptime E (modifiedTime r) = Some t
       \<and> (\<forall>f\<in>set files. \<forall>u. strptime E (modifiedTime f) = Some u \<longrightarrow> u \<le> t)))"
proof (cases files)
  case Nil
  then show ?thesis by simp
next
  case (Cons f rest)
  obtain r where r: "most_recent E rest (Some f) = Inr (Some r)" "r \<in> insert f (set rest)"
      "\<forall>g\<in>insert f (set rest). the (strptime E (modifiedTime g)) \<le> the (strptime E (modifiedTime r))"
    using most_recent_max [of rest E f] assms Cons by auto
  obtain t where t: "strptime E (modifiedTime r) = Some t" using r(2) assms Cons by auto
  obtain tf where tf: "strptime E (modifiedTime f) = Some tf" using assms Cons by auto
  have "\<forall>g\<in>set files. \<forall>u. strptime E (modifiedTime g) = Some u \<longrightarrow> u \<le> t"
    using r(3) t Cons by fastforce
  then show ?thesis using Cons r t tf by (auto simp: parse_modified_def)
qed


lemma listed_ok:
  assumes "\<not> fails E (trace w) (ListFiles BACKUP_FOLDER_ID)"
  shows "list_files_in_drive E BACKUP_FOLDER_ID (w\<lparr>ticks := Suc (ticks w)\<rparr>) =
    (Inr (listing E (trace w) BACKUP_FOLDER_ID),
     w\<lparr>ticks := Suc (ticks w), trace := trace w @ [ListFiles BACKUP_FOLDER_ID],
       logs := logs w @ [(INFO, ''Listed files in Google Drive folder ID '' @ BACKUP_FOLDER_ID @ ''.'')]\<rparr>)"
  using assms by (simp add: list_files_in_drive_def world_defs)

lemma create_backup_unfold:
  assumes "\<not> fails E (trace w) (ListFiles BACKUP_FOLDER_ID)"
  shows "create_backup E w =
    (case most_recent E (listing E (trace w) BACKUP_FOLDER_ID) None of
       Inl e \<Rightarrow> (Inl e, listed E w)
     | Inr None \<Rightarrow> create_backup_try E (backup_path E (clock E (ticks w)))
                     (listing E (trace w) BACKUP_FOLDER_ID) (listed E w)
     | Inr (Some r) \<Rightarrow>
         (case parse_modified E r of
            Inl e \<Rightarrow> (Inl e, listed E w)
          | Inr t \<Rightarrow>
              (if clock E (ticks w) - t < timedelta_days BACKUP_INTERVAL_DAYS
               then (Inr (), logging INFO (''Skipping backup: Last backup ''
                        @ str_datetime E t @ '' is within the interval.'') (listed E w))
               else create_backup_try E (backup_path E (clock E (ticks w)))
                     (listing E (trace w) BACKUP_FOLDER_ID) (listed E w))))"
  unfolding listed_def create_backup_def
  by (simp add: listed_ok [OF assms] datetime_now_def split: sum.splits option.splits)

lemma listed_trace:
  "\<not> fails E (trace w) (ListFiles BACKUP_FOLDER_ID) \<Longrightarrow>
   trace (listed E w) = trace w @ [ListFiles BACKUP_FOLDER_ID] \<and> fs (listed E w) = fs w"
  by (simp add: listed_def listed_ok datetime_now_def)

lemma create_backup_try_not_skip:
  "trace (snd (create_backup_try E p dfs w)) \<noteq> trace w"
  using create_backup_try_trace [of E p dfs w] by auto

lemma write_zip_ok:
  assumes "fst (write_zip E p ps w) = Inr ()"
  shows "os_path_isfile (snd (write_zip E p ps w)) p"
  using assms
  by (auto simp add: write_zip_def world_defs split: option.splits prod.splits if_splits)

lemma create_backup_try_unfold:
  assumes "fs w CONFIG_FILE = Some cf" and "kind cf = Regular"
    and "json_load E (content cf) = Some cfg"
    and "fst (write_zip E p (map snd (file_mappings cfg)) (snd (load_config E w))) = Inr ()"
  shows "create_backup_try E p dfs w =
     reraise_logged (\<lambda>e. ''Failed to create or upload backup: '' @ str_error e)
       (case upload_file E p dfs BACKUP_FOLDER_ID (zipped E p cfg w) of
          (Inl e, w3) \<Rightarrow> (Inl e, w3)
        | (Inr u, w3) \<Rightarrow>
            (case os_remove p w3 of
               (Inl e, w4) \<Rightarrow> (Inl e, w4)
             | (Inr u', w4) \<Rightarrow>
                 (Inr (), logging INFO ''Local backup file deleted after upload.'' w4)))"
proof -
  let ?w1 = "snd (load_config E w)"
  have l: "load_config E w = (Inr cfg, ?w1)"
    using load_config_ok [OF assms(1,2,3)] by simp
  have z: "write_zip E p (map snd (file_mappings cfg)) ?w1 =
      (Inr (), snd (write_zip E p (map snd (file_mappings cfg)) ?w1))"
    using assms(4) by (metis prod.collapse)
  show ?thesis
    unfolding create_backup_try_def zipped_def
    by (subst l, simp only: prod.case sum.case, subst z, simp only: prod.case sum.case)
qed

lemma zipped_isfile:
  assumes "fst (write_zip E p (map snd (file_mappings cfg)) (snd (load_config E w))) = Inr ()"
  shows "os_path_isfile (zipped E p cfg w) p"
proof -
  have "os_path_isfile (snd (write_zip E p (map snd (file_mappings cfg))
               (snd (load_config E w)))) p"
    using write_zip_ok [OF assms] .
  then show ?thesis by (simp add: zipped_def logging_def os_path_isfile_def)
qed

subsection \<open>Events that the functions add to the trace\<close>

lemma adds_refl [simp]: "adds P tr tr"
  by (simp add: adds_def)

lemma adds_trans: "adds P a b \<Longrightarrow> adds P b c \<Longrightarrow> adds P a c"
  by (auto simp: adds_def)

lemma adds_mono: "adds P a b \<Longrightarrow> (\<And>ev. P ev \<Longrightarrow> Q ev) \<Longrightarrow> adds Q a b"
  by (auto simp: adds_def list_all_iff)

lemma adds_one: "P ev \<Longrightarrow> adds P tr (tr @ [ev])"
  by (simp add: adds_def)

lemma trace_logging [simp]: "trace (logging lv msg w) = trace w"
  by (simp add: logging_def)

lemma fs_logging [simp]: "fs (logging lv msg w) = fs w"
  by (simp add: logging_def)

lemma ticks_logging [simp]: "ticks (logging lv msg w) = ticks w"
  by (simp add: logging_def)

lemma trace_reraise [simp]: "trace (snd (reraise_logged m r)) = trace (snd r)"
  by (cases r) (auto simp: reraise_logged_def split: sum.splits)

lemma fs_reraise [simp]: "fs (snd (reraise_logged m r)) = fs (snd r)"
  by (cases r) (auto simp: reraise_logged_def split: sum.splits)

lemma fst_reraise [simp]: "fst (reraise_logged m r) = fst r"
  by (cases r) (auto simp: reraise_logged_def split: sum.splits)

lemma list_files_trace [simp]:
  "trace (snd (list_files_in_drive E folder w)) = trace w @ [ListFiles folder]"
  by (simp add: list_files_in_drive_def request_def)

lemma upload_file_adds:
  "adds is_upload (trace w) (trace (snd (upload_file E file_path drive_files folder w)))"
  by (simp add: upload_file_def adds_def is_upload_def MediaFileUpload_def open_rb_def
      parse_modified_def os_path_getmtime_def request_def Let_def
      split: option.splits sum.splits)

lemma upload_all_adds:
  "adds is_upload (trace w) (trace (snd (upload_all E paths drive_files folder w)))"
proof (induction paths arbitrary: w)
  case Nil
  show ?case by simp
next
  case (Cons file_path rest)
  obtain r w' where up: "upload_file E file_path drive_files folder w = (r, w')"
    by (cases "upload_file E file_path drive_files folder w")
  have a: "adds is_upload (trace w) (trace w')"
    using upload_file_adds [of w E file_path drive_files folder] up by simp
  show ?case
  proof (cases "os_path_isfile w file_path")
    case False
    then show ?thesis using Cons.IH [of w] by simp
  next
    case True
    then show ?thesis
      using up a adds_trans [OF a Cons.IH [of w']] by (cases r) simp_all
  qed
qed

lemma write_file_trace [simp]: "trace (snd (write_file E p b w)) = trace w"
  by (simp add: write_file_def put_file_def split: option.splits)

lemma fetch_media_trace [simp]:
  "trace (snd (fetch_media E n r p w)) = trace w @ [GetMedia (file_id r)]"
  by (simp add: fetch_media_def Let_def write_file_def put_file_def
      split: option.splits prod.splits sum.splits)

lemma download_file_adds:
  "\<exists>evs. trace (snd (download_file E n r w)) = trace w @ LoadConfig # evs
         \<and> (evs = [] \<or> evs = [GetMedia (file_id r)])"
proof -
  obtain r1 w1 where l: "load_config E w = (r1, w1)" by (cases "load_config E w")
  have t1: "trace w1 = trace w @ [LoadConfig]" by (metis load_config_trace l snd_conv)
  show ?thesis
    using l t1
    by (auto simp add: download_file_def parse_modified_def os_path_exists_def
        os_path_getmtime_def split: sum.splits option.splits)
qed

lemma download_all_adds:
  "adds (\<lambda>ev. ev = LoadConfig \<or> is_download ev) (trace w) (trace (snd (download_all E dfs w)))"
proof (induction dfs arbitrary: w)
  case Nil
  show ?case by simp
next
  case (Cons r rest)
  obtain r1 w1 where d: "download_file E (name r) r w = (r1, w1)"
    by (cases "download_file E (name r) r w")
  have a: "adds (\<lambda>ev. ev = LoadConfig \<or> is_download ev) (trace w) (trace w1)"
    using download_file_adds [of E "name r" r w] d by (auto simp: adds_def is_download_def)
  show ?case
    using d a adds_trans [OF a Cons.IH [of w1]] by (cases r1) simp_all
qed

lemma sync_adds: "adds (\<lambda>ev. \<not> is_sleep ev) (trace w) (trace (snd (sync E w)))"
proof -
  let ?P = "\<lambda>ev. \<not> is_sleep ev"
  obtain r1 w1 where l: "load_config E w = (r1, w1)" by (cases "load_config E w")
  have a1: "adds ?P (trace w) (trace w1)"
    using load_config_trace [of E w] l by (simp add: adds_def is_sleep_def)
  show ?thesis
  proof (cases r1)
    case (Inl e)
    then show ?thesis using l a1 by (simp add: sync_def)
  next
    case (Inr cfg)
    obtain r2 w2 where ls: "list_files_in_drive E (folder_id cfg) w1 = (r2, w2)"
      by (cases "list_files_in_drive E (folder_id cfg) w1")
    have a2: "adds ?P (trace w) (trace w2)"
      using list_files_trace [of E "folder_id cfg" w1] ls a1 by (auto simp add: adds_def is_sleep_def)
    show ?thesis
    proof (cases r2)
      case (Inl e)
      then show ?thesis using l Inr ls a2 by (simp add: sync_def)
    next
      case dfs: (Inr drive_files)
      obtain r3 w3 where up: "upload_all E (map snd (file_mappings cfg)) drive_files
          (folder_id cfg) w2 = (r3, w3)"
        by (cases "upload_all E (map snd (file_mappings cfg)) drive_files (folder_id cfg) w2")
      have "adds is_upload (trace w2) (trace w3)"
        using upload_all_adds [of w2 E _ drive_files "folder_id cfg"] up
        by (metis snd_conv)
      then have "adds ?P (trace w2) (trace w3)"
        by (rule adds_mono) (auto simp: is_upload_def is_sleep_def split: event.splits)
      then have a3: "adds ?P (trace w) (trace w3)" using a2 adds_trans by blast
      show ?thesis
      proof (cases r3)
        case (Inl e)
        then show ?thesis using l Inr ls dfs up a3 by (simp add: sync_def)
      next
        case r3: (Inr u)
        obtain r4 w4 where dn: "download_all E drive_files w3 = (r4, w4)"
          by (cases "download_all E drive_files w3")
        have "adds (\<lambda>ev. ev = LoadConfig \<or> is_download ev) (trace w3) (trace w4)"
          using download_all_adds [of w3 E drive_files] dn by simp
        then have "adds ?P (trace w3) (trace w4)"
          by (rule adds_mono) (auto simp: is_download_def is_sleep_def split: event.splits)
        then have a4: "adds ?P (trace w) (trace w4)" using a3 adds_trans by blast
        show ?thesis using l Inr ls dfs up r3 dn a4 by (cases r4) (simp_all add: sync_def)
      qed
    qed
  qed
qed


lemma create_backup_try_adds:
  "\<exists>evs. trace (snd (create_backup_try E p dfs w)) = trace w @ LoadConfig # evs
         \<and> list_all is_upload evs"
proof -
  obtain r1 w1 where l: "load_config E w = (r1, w1)" by (cases "load_config E w")
  have t1: "trace w1 = trace w @ [LoadConfig]" by (metis load_config_trace l snd_conv)
  show ?thesis
  proof (cases r1)
    case (Inl e)
    then show ?thesis using l t1 by (simp add: create_backup_try_def)
  next
    case (Inr cfg)
    obtain r2 w2 where z: "write_zip E p (map snd (file_mappings cfg)) w1 = (r2, w2)"
      by (cases "write_zip E p (map snd (file_mappings cfg)) w1")
    have t2: "trace w2 = trace w @ [LoadConfig]" by (metis write_zip_trace z t1 snd_conv)
    show ?thesis
    proof (cases r2)
      case (Inl e)
      then show ?thesis using l Inr z t2 by (simp add: create_backup_try_def)
    next
      case r2: (Inr u)
      let ?w2 = "logging INFO (''Backup created locally: '' @ p) w2"
      obtain r3 w3 where u: "upload_file E p dfs BACKUP_FOLDER_ID ?w2 = (r3, w3)"
        by (cases "upload_file E p dfs BACKUP_FOLDER_ID ?w2")
      obtain evs where t3: "trace w3 = trace w @ LoadConfig # evs" "list_all is_upload evs"
        using upload_file_adds [of ?w2 E p dfs BACKUP_FOLDER_ID] u t2
        by (auto simp: adds_def)
      show ?thesis
      proof (cases r3)
        case (Inl e)
        then show ?thesis using l Inr z r2 u t3 by (simp add: create_backup_try_def)
      next
        case r3: (Inr u3)
        obtain r4 w4 where rm: "os_remove p w3 = (r4, w4)" by (cases "os_remove p w3")
        have t4: "trace w4 = trace w @ LoadConfig # evs" by (metis os_remove_trace rm t3(1) snd_conv)
        show ?thesis using l Inr z r2 u r3 rm t4 t3(2)
          by (cases r4) (simp_all add: create_backup_try_def)
      qed
    qed
  qed
qed

lemma create_backup_adds:
  "adds (\<lambda>ev. \<not> is_sleep ev) (trace w) (trace (snd (create_backup E w)))"
proof -
  let ?P = "\<lambda>ev. \<not> is_sleep ev"
  let ?w0 = "w\<lparr>ticks := Suc (ticks w)\<rparr>"
  obtain r1 w1 where ls: "list_files_in_drive E BACKUP_FOLDER_ID ?w0 = (r1, w1)"
    by (cases "list_files_in_drive E BACKUP_FOLDER_ID ?w0")
  have t1: "trace w1 = trace w @ [ListFiles BACKUP_FOLDER_ID]"
    using list_files_trace [of E BACKUP_FOLDER_ID ?w0] ls by simp
  then have a1: "adds ?P (trace w) (trace w1)" by (simp add: adds_def is_sleep_def)
  have a2: "adds ?P (trace w) (trace (snd (create_backup_try E p dfs w1)))" for p dfs
  proof -
    obtain evs where "trace (snd (create_backup_try E p dfs w1)) = trace w1 @ LoadConfig # evs"
        "list_all is_upload evs"
      using create_backup_try_adds by blast
    then show ?thesis using t1
      by (auto simp: adds_def is_sleep_def is_upload_def list_all_iff split: event.splits)
  qed
  show ?thesis
    using ls a1 a2
    by (auto simp add: create_backup_def datetime_now_def
        split: sum.splits option.splits prod.splits)
qed

lemma main_backup_shape:
  "\<exists>evs. trace (snd (main_backup E w)) = trace w @ evs
     \<and> (case fst (main_backup E w) of
          Inl e \<Rightarrow> list_all (\<lambda>ev. \<not> is_sleep ev) evs
        | Inr t \<Rightarrow> evs \<noteq> [] \<and> last evs = Sleep 300
                   \<and> list_all (\<lambda>ev. \<not> is_sleep ev) (butlast evs))"
proof -
  let ?w = "logging INFO ''Creating backup...'' w"
  obtain r1 w1 where cb: "create_backup E ?w = (r1, w1)" by (cases "create_backup E ?w")
  obtain evs where evs: "trace w1 = trace w @ evs" "list_all (\<lambda>ev. \<not> is_sleep ev) evs"
    using create_backup_adds [of ?w E] cb by (auto simp: adds_def)
  show ?thesis
    using cb evs
    by (cases r1) (simp_all add: main_backup_def datetime_now_def idle_def time_sleep_def)
qed

lemma create_backup_cases:
  assumes "\<not> fails E (trace w) (ListFiles BACKUP_FOLDER_ID)"
    and "\<forall>f\<in>set (listing E (trace w) BACKUP_FOLDER_ID). strptime E (modifiedTime f) \<noteq> None"
  shows "if (\<exists>f\<in>set (listing E (trace w) BACKUP_FOLDER_ID). \<exists>t.
               strptime E (modifiedTime f) = Some t
               \<and> clock E (ticks w) - t < timedelta_days BACKUP_INTERVAL_DAYS)
         then (\<exists>msg. create_backup E w = (Inr (), logging INFO msg (listed E w)))
         else create_backup E w =
                create_backup_try E (backup_path E (clock E (ticks w)))
                  (listing E (trace w) BACKUP_FOLDER_ID) (listed E w)"
proof -
  let ?files = "listing E (trace w) BACKUP_FOLDER_ID"
  let ?now = "clock E (ticks w)"
  let ?recent = "\<exists>f\<in>set ?files. \<exists>t. strptime E (modifiedTime f) = Some t
                   \<and> ?now - t < timedelta_days BACKUP_INTERVAL_DAYS"
  show ?thesis
  proof (cases "?files = []")
    case True
    then show ?thesis by (simp add: create_backup_unfold [OF assms(1)])
  next
    case False
    then obtain r t where r: "most_recent E ?files None = Inr (Some r)" "r \<in> set ?files"
        "strptime E (modifiedTime r) = Some t"
        "\<forall>f\<in>set ?files. \<forall>u. strptime E (modifiedTime f) = Some u \<longrightarrow> u \<le> t"
      using most_recent_None [OF assms(2)] by blast
    have iff: "?recent \<longleftrightarrow> ?now - t < timedelta_days BACKUP_INTERVAL_DAYS"
    proof
      assume ?recent
      then obtain f u where "f \<in> set ?files" "strptime E (modifiedTime f) = Some u"
          "?now - u < timedelta_days BACKUP_INTERVAL_DAYS" by blast
      moreover have "u \<le> t" using r(4) calculation by blast
      ultimately show "?now - t < timedelta_days BACKUP_INTERVAL_DAYS" by linarith
    next
      assume "?now - t < timedelta_days BACKUP_INTERVAL_DAYS"
      then show ?recent using r(2,3) by blast
    qed
    show ?thesis
      unfolding iff using r(1,3)
      by (auto simp add: create_backup_unfold [OF assms(1)] parse_modified_def)
  qed
qed

lemmas sync_eval = sync_def load_config_def list_files_in_drive_def upload_file_def
  download_file_def fetch_media_def world_defs os_path_basename_def Let_def


subsection \<open>What a pass loads and leaves on disk\<close>

lemma write_file_fs_other: "q \<noteq> p \<Longrightarrow> fs (snd (write_file E p b w)) q = fs w q"
  by (simp add: write_file_def put_file_def split: option.splits)

lemma fetch_media_fs_other: "q \<noteq> p \<Longrightarrow> fs (snd (fetch_media E n r p w)) q = fs w q"
  by (simp add: fetch_media_def Let_def write_file_def put_file_def
      split: option.splits prod.splits sum.splits)

lemma download_file_fs_other:
  assumes "fs w CONFIG_FILE = Some cf" and "kind cf = Regular"
    and "json_load E (content cf) = Some cfg"
    and "map_of (file_mappings cfg) n \<noteq> Some q"
  shows "fs (snd (download_file E n r w)) q = fs w q"
  using assms(4)
  by (auto simp add: download_file_def load_config_ok [OF assms(1,2,3)] fetch_media_fs_other
      parse_modified_def os_path_exists_def os_path_getmtime_def
      split: option.splits sum.splits)

lemma mapped_path: "map_of m n = Some q \<Longrightarrow> q \<in> snd ` set m"
  by (metis map_of_SomeD snd_conv image_eqI)

lemma download_all_config_kept:
  assumes "fs w CONFIG_FILE = Some cf" and "kind cf = Regular"
    and "json_load E (content cf) = Some cfg"
    and "CONFIG_FILE \<notin> snd ` set (file_mappings cfg)"
  shows "fs (snd (download_all E dfs w)) CONFIG_FILE = Some cf"
  using assms(1)
proof (induction dfs arbitrary: w)
  case Nil
  then show ?case by simp
next
  case (Cons r rest)
  obtain r1 w1 where d: "download_file E (name r) r w = (r1, w1)"
    by (cases "download_file E (name r) r w")
  have "map_of (file_mappings cfg) (name r) \<noteq> Some CONFIG_FILE"
    using assms(4) mapped_path by fastforce
  then have k: "fs w1 CONFIG_FILE = Some cf"
    using download_file_fs_other [OF Cons.prems assms(2,3), of "name r" CONFIG_FILE r] d
      Cons.prems by simp
  show ?case
    using d k Cons.IH [OF k] by (cases r1) simp_all
qed

lemma count_adds_none:
  "adds P tr tr' \<Longrightarrow> \<not> P x \<Longrightarrow> count_list tr' x = count_list tr x"
  by (auto simp: adds_def list_all_iff count_list_0_iff)

lemma download_all_loads:
  "download_all E dfs w = (Inr u, w')
   \<Longrightarrow> count_list (trace w') LoadConfig = count_list (trace w) LoadConfig + length dfs"
proof (induction dfs arbitrary: w)
  case Nil
  then show ?case by simp
next
  case (Cons r rest)
  obtain r1 w1 where d: "download_file E (name r) r w = (r1, w1)"
    by (cases "download_file E (name r) r w")
  obtain evs where evs: "trace w1 = trace w @ LoadConfig # evs"
      "evs = [] \<or> evs = [GetMedia (file_id r)]"
    using download_file_adds [of E "name r" r w] d by auto
  then have c: "count_list (trace w1) LoadConfig = count_list (trace w) LoadConfig + 1"
    by auto
  show ?case
  proof (cases r1)
    case (Inl e)
    then show ?thesis using Cons.prems d by simp
  next
    case (Inr v)
    then have "download_all E rest w1 = (Inr u, w')" using Cons.prems d by simp
    then show ?thesis using Cons.IH [of w1] c by simp
  qed
qed

lemma list_files_Inr:
  "list_files_in_drive E folder w = (Inr dfs, w2)
   \<Longrightarrow> dfs = listing E (trace w) folder \<and> fs w2 = fs w
       \<and> trace w2 = trace w @ [ListFiles folder]"
  by (auto simp add: list_files_in_drive_def world_defs split: if_splits)

lemma list_files_fs [simp]: "fs (snd (list_files_in_drive E folder w)) = fs w"
  by (simp add: list_files_in_drive_def world_defs)

lemma upload_all_fs [simp]: "fs (snd (upload_all E paths dfs folder w)) = fs w"
proof (induction paths arbitrary: w)
  case Nil
  show ?case by simp
next
  case (Cons p rest)
  obtain r w' where up: "upload_file E p dfs folder w = (r, w')"
    by (cases "upload_file E p dfs folder w")
  have "fs w' = fs w" by (metis upload_file_fs up snd_conv)
  then show ?case using up Cons.IH [of w'] Cons.IH [of w] by (cases r) simp_all
qed

text \<open>The stages of a \<open>sync\<close> that returns.\<close>

lemma sync_stages:
  assumes "fs w CONFIG_FILE = Some cf" and "kind cf = Regular"
    and "json_load E (content cf) = Some cfg"
    and "sync E w = (Inr u, w')"
  shows "\<exists>w1 w2 w3 w4.
      load_config E w = (Inr cfg, w1)
    \<and> list_files_in_drive E (folder_id cfg) w1
        = (Inr (listing E (trace w @ [LoadConfig]) (folder_id cfg)), w2)
    \<and> upload_all E (map snd (file_mappings cfg))
          (listing E (trace w @ [LoadConfig]) (folder_id cfg)) (folder_id cfg) w2 = (Inr (), w3)
    \<and> download_all E (listing E (trace w @ [LoadConfig]) (folder_id cfg)) w3 = (Inr (), w4)
    \<and> w' = logging INFO ''Sync operation completed.'' w4"
proof -
  let ?w1 = "w\<lparr>trace := trace w @ [LoadConfig],
           logs := logs w @ [(INFO, ''Configuration file loaded successfully.'')]\<rparr>"
  have l: "load_config E w = (Inr cfg, ?w1)" by (rule load_config_ok [OF assms(1,2,3)])
  obtain r2 w2 where ls: "list_files_in_drive E (folder_id cfg) ?w1 = (r2, w2)"
    by (cases "list_files_in_drive E (folder_id cfg) ?w1")
  show ?thesis
  proof (cases r2)
    case (Inl e)
    then show ?thesis using assms(4) l ls by (simp add: sync_def reraise_logged_def)
  next
    case (Inr dfs)
    then have dfs: "dfs = listing E (trace w @ [LoadConfig]) (folder_id cfg)"
      using list_files_Inr [of E "folder_id cfg" ?w1 dfs w2] ls by simp
    obtain r3 w3 where up: "upload_all E (map snd (file_mappings cfg)) dfs (folder_id cfg) w2
        = (r3, w3)"
      by (cases "upload_all E (map snd (file_mappings cfg)) dfs (folder_id cfg) w2")
    show ?thesis
    proof (cases r3)
      case (Inl e)
      then show ?thesis using assms(4) l ls Inr up by (simp add: sync_def reraise_logged_def)
    next
      case r3: (Inr v)
      obtain r4 w4 where dn: "download_all E dfs w3 = (r4, w4)"
        by (cases "download_all E dfs w3")
      show ?thesis
      proof (cases r4)
        case (Inl e)
        then show ?thesis using assms(4) l ls Inr up r3 dn
          by (simp add: sync_def reraise_logged_def)
      next
        case r4: (Inr v4)
        have "w' = logging INFO ''Sync operation completed.'' w4"
          using assms(4) l ls Inr up r3 dn r4 by (simp add: sync_def reraise_logged_def)
        then show ?thesis using l ls Inr dfs up r3 dn r4 by simp
      qed
    qed
  qed
qed

lemmas twins_defs = demo_config_twins_def demo_env_twins_def demo_world_twins_def

subsection \<open>A file with the time of its record\<close>

lemma find_SomeD: "find P xs = Some x \<Longrightarrow> P x \<and> x \<in> set xs"
  by (induction xs) (auto split: if_splits)

lemma distinct_map_eq:
  "distinct (map g xs) \<Longrightarrow> x \<in> set xs \<Longrightarrow> y \<in> set xs \<Longrightarrow> g x = g y \<Longrightarrow> x = y"
  by (meson distinct_map inj_on_def)

lemma upload_file_events:
  "\<exists>evs. trace (snd (upload_file E q dfs folder w)) = trace w @ evs
     \<and> (evs = []
        \<or> (evs = [Create (os_path_basename q) folder q]
            \<and> find (\<lambda>r. name r = os_path_basename q) dfs = None)
        \<or> (\<exists>r' d' fq. evs = [Update (file_id r') q]
            \<and> find (\<lambda>r. name r = os_path_basename q) dfs = Some r'
            \<and> strptime E (modifiedTime r') = Some d' \<and> fs w q = Some fq
            \<and> mtime fq > timestamp E d'))"
  by (auto simp add: upload_file_def world_defs Let_def split: option.splits sum.splits)


lemma upload_file_spares:
  assumes "sole_entry cfg k p" and "sole_record E dfs r k d"
    and "fs w p = Some f" and "timestamp E d = mtime f"
    and "q \<in> snd ` set (file_mappings cfg)"
  shows "adds (\<lambda>ev. \<not> concerns k (file_id r) p ev) (trace w)
           (trace (snd (upload_file E q dfs folder w)))"
proof -
  from assms(2) have r: "r \<in> set dfs" "name r = k" "strptime E (modifiedTime r) = Some d"
      "distinct (map name dfs)" "distinct (map file_id dfs)"
    by (simp_all add: sole_record_def)
  from assms(1) have bp: "os_path_basename p = k" by (simp add: sole_entry_def)
  from assms(1) have sole: "\<forall>e\<in>set (file_mappings cfg).
      (os_path_basename (snd e) = k \<or> snd e = p) \<longrightarrow> e = (k, p)"
    by (simp add: sole_entry_def)
  have only: "q = p" if "os_path_basename q = k"
  proof -
    obtain e where e: "e \<in> set (file_mappings cfg)" "snd e = q"
      using assms(5) by (auto simp: image_iff)
    then have "e = (k, p)" using sole that by (metis (no_types, lifting))
    then show ?thesis using e(2) by simp
  qed
  obtain evs where evs: "trace (snd (upload_file E q dfs folder w)) = trace w @ evs"
    "evs = []
        \<or> (evs = [Create (os_path_basename q) folder q]
            \<and> find (\<lambda>r. name r = os_path_basename q) dfs = None)
        \<or> (\<exists>r' d' fq. evs = [Update (file_id r') q]
            \<and> find (\<lambda>r. name r = os_path_basename q) dfs = Some r'
            \<and> strptime E (modifiedTime r') = Some d' \<and> fs w q = Some fq
            \<and> mtime fq > timestamp E d')"
    using upload_file_events [of E q dfs folder w] by blast
  have "list_all (\<lambda>ev. \<not> concerns k (file_id r) p ev) evs"
    using evs(2)
  proof (elim disjE conjE exE)
    assume "evs = []"
    then show ?thesis by simp
  next
    assume c: "evs = [Create (os_path_basename q) folder q]"
      "find (\<lambda>r. name r = os_path_basename q) dfs = None"
    have "os_path_basename q \<noteq> k" using c(2) r(1,2) by (auto simp: find_None_iff)
    moreover have "q \<noteq> p" using calculation bp by auto
    ultimately show ?thesis using c(1) by (simp add: concerns_def)
  next
    fix r' d' fq
    assume u: "evs = [Update (file_id r') q]"
      "find (\<lambda>r. name r = os_path_basename q) dfs = Some r'"
      "strptime E (modifiedTime r') = Some d'" "fs w q = Some fq" "timestamp E d' < mtime fq"
    have r': "name r' = os_path_basename q" "r' \<in> set dfs"
      using find_SomeD [OF u(2)] by simp_all
    have ne: "r' \<noteq> r"
    proof
      assume "r' = r"
      then have "os_path_basename q = k" using r' r(2) by simp
      then have "q = p" by (rule only)
      then show False using u(3,4,5) \<open>r' = r\<close> r(3) assms(3,4) by simp
    qed
    have "file_id r' \<noteq> file_id r"
      using ne distinct_map_eq [OF r(5) r'(2) r(1)] by blast
    moreover have "q \<noteq> p"
    proof
      assume "q = p"
      then have "name r' = name r" using r'(1) bp r(2) by simp
      then show False using ne distinct_map_eq [OF r(4) r'(2) r(1)] by blast
    qed
    ultimately show ?thesis using u(1) by (simp add: concerns_def)
  qed
  then show ?thesis using evs(1) by (auto simp: adds_def)
qed

lemma upload_all_spares:
  assumes "sole_entry cfg k p" and "sole_record E dfs r k d"
    and "fs w p = Some f" and "timestamp E d = mtime f"
    and "set qs \<subseteq> snd ` set (file_mappings cfg)"
  shows "adds (\<lambda>ev. \<not> concerns k (file_id r) p ev) (trace w)
           (trace (snd (upload_all E qs dfs folder w)))"
  using assms(3,5)
proof (induction qs arbitrary: w)
  case Nil
  show ?case by simp
next
  case (Cons q rest)
  obtain r1 w1 where up: "upload_file E q dfs folder w = (r1, w1)"
    by (cases "upload_file E q dfs folder w")
  have q: "q \<in> snd ` set (file_mappings cfg)" and rest: "set rest \<subseteq> snd ` set (file_mappings cfg)"
    using Cons.prems(2) by auto
  have a: "adds (\<lambda>ev. \<not> concerns k (file_id r) p ev) (trace w) (trace w1)"
    using upload_file_spares [OF assms(1,2) Cons.prems(1) assms(4) q, of folder] up by simp
  have "fs w1 = fs w" by (metis upload_file_fs up snd_conv)
  then have f1: "fs w1 p = Some f" using Cons.prems(1) by simp
  show ?case
  proof (cases "os_path_isfile w q")
    case False
    then show ?thesis using Cons.IH [OF Cons.prems(1) rest] by simp
  next
    case True
    then show ?thesis
      using up a adds_trans [OF a Cons.IH [OF f1 rest]] by (cases r1) simp_all
  qed
qed

lemma download_file_spares:
  assumes "fs w CONFIG_FILE = Some cf" and "kind cf = Regular"
    and "json_load E (content cf) = Some cfg"
    and "sole_entry cfg k p" and "sole_record E dfs r k d"
    and "fs w p = Some f" and "timestamp E d = mtime f"
    and "r' \<in> set dfs"
  shows "adds (\<lambda>ev. \<not> concerns k (file_id r) p ev) (trace w)
           (trace (snd (download_file E (name r') r' w)))
    \<and> fs (snd (download_file E (name r') r' w)) CONFIG_FILE = Some cf
    \<and> fs (snd (download_file E (name r') r' w)) p = Some f"
proof -
  from assms(5) have r: "r \<in> set dfs" "name r = k" "strptime E (modifiedTime r) = Some d"
      "distinct (map name dfs)" "distinct (map file_id dfs)"
    by (simp_all add: sole_record_def)
  from assms(4) have e: "map_of (file_mappings cfg) k = Some p"
      "CONFIG_FILE \<notin> snd ` set (file_mappings cfg)"
    by (simp_all add: sole_entry_def)
  have nc: "map_of (file_mappings cfg) (name r') \<noteq> Some CONFIG_FILE"
    using e(2) mapped_path by fastforce
  have keepc: "fs (snd (download_file E (name r') r' w)) CONFIG_FILE = Some cf"
    using download_file_fs_other [OF assms(1,2,3) nc] assms(1) by simp
  show ?thesis
  proof (cases "r' = r")
    case True
    have "download_file E (name r) r w =
        (Inr (), logging INFO (''No download needed for '' @ name r
              @ '', local version is up-to-date.'') (fst (snd (load_config E w), ())))
      \<or> download_file E (name r) r w =
        (Inr (), logging WARNING (''File '' @ name r @ '' is not mapped for local sync.'')
             (snd (load_config E w)))"
      using r(2,3) e(1) assms(6,7)
      by (simp add: download_file_def load_config_ok [OF assms(1,2,3)] world_defs)
    then have "trace (snd (download_file E (name r) r w)) = trace w @ [LoadConfig]
        \<and> fs (snd (download_file E (name r) r w)) = fs w"
      by auto
    then show ?thesis using True assms(1,6)
      by (simp add: adds_def concerns_def)
  next
    case False
    have idne: "file_id r' \<noteq> file_id r"
      using False distinct_map_eq [OF r(5) assms(8) r(1)] by blast
    have nmne: "name r' \<noteq> k"
      using False distinct_map_eq [OF r(4) assms(8) r(1)] r(2) by auto
    have np: "map_of (file_mappings cfg) (name r') \<noteq> Some p"
    proof
      assume "map_of (file_mappings cfg) (name r') = Some p"
      then have "(name r', p) \<in> set (file_mappings cfg)" by (rule map_of_SomeD)
      moreover from assms(4) have "\<forall>e\<in>set (file_mappings cfg).
          (os_path_basename (snd e) = k \<or> snd e = p) \<longrightarrow> e = (k, p)"
        by (simp add: sole_entry_def)
      ultimately have "(name r', p) = (k, p)" by (metis (no_types, lifting) snd_conv)
      then show False using nmne by simp
    qed
    have keepp: "fs (snd (download_file E (name r') r' w)) p = Some f"
      using download_file_fs_other [OF assms(1,2,3) np] assms(6) by simp
    obtain evs where evs: "trace (snd (download_file E (name r') r' w))
          = trace w @ LoadConfig # evs" "evs = [] \<or> evs = [GetMedia (file_id r')]"
      using download_file_adds [of E "name r'" r' w] by blast
    have "adds (\<lambda>ev. \<not> concerns k (file_id r) p ev) (trace w)
           (trace (snd (download_file E (name r') r' w)))"
      using evs idne by (auto simp: adds_def concerns_def)
    then show ?thesis using keepc keepp by simp
  qed
qed


lemma download_all_spares:
  assumes "kind cf = Regular" and "json_load E (content cf) = Some cfg"
    and "sole_entry cfg k p" and "sole_record E dfs r k d"
    and "timestamp E d = mtime f"
    and "fs w CONFIG_FILE = Some cf" and "fs w p = Some f"
    and "set rs \<subseteq> set dfs"
  shows "adds (\<lambda>ev. \<not> concerns k (file_id r) p ev) (trace w)
           (trace (snd (download_all E rs w)))"
  using assms(6,7,8)
proof (induction rs arbitrary: w)
  case Nil
  show ?case by simp
next
  case (Cons r' rest)
  obtain r1 w1 where dl: "download_file E (name r') r' w = (r1, w1)"
    by (cases "download_file E (name r') r' w")
  have r': "r' \<in> set dfs" and rest: "set rest \<subseteq> set dfs" using Cons.prems(3) by auto
  have a: "adds (\<lambda>ev. \<not> concerns k (file_id r) p ev) (trace w) (trace w1)"
    and c1: "fs w1 CONFIG_FILE = Some cf" and p1: "fs w1 p = Some f"
    using download_file_spares [OF Cons.prems(1) assms(1,2,3,4) Cons.prems(2) assms(5) r'] dl
    by simp_all
  show ?case
    using dl a adds_trans [OF a Cons.IH [OF c1 p1 rest]] by (cases r1) simp_all
qed

lemma create_backup_try_uploads:
  assumes "fs w CONFIG_FILE = Some cf" and "kind cf = Regular"
    and "json_load E (content cf) = Some cfg"
    and "fst (write_zip E p (map snd (file_mappings cfg)) (snd (load_config E w))) = Inr ()"
  shows "trace (snd (create_backup_try E p [] w))
           = trace w @ [LoadConfig, Create (os_path_basename p) BACKUP_FOLDER_ID p]"
proof -
  let ?z = "zipped E p cfg w"
  obtain a where a: "fs ?z p = Some a" "kind a = Regular"
    using zipped_isfile [OF assms(4)]
    by (auto simp: os_path_isfile_def split: option.splits)
  have tz: "trace ?z = trace w @ [LoadConfig]" by (simp add: zipped_def)
  have up: "trace (snd (upload_file E p [] BACKUP_FOLDER_ID ?z))
      = trace w @ [LoadConfig, Create (os_path_basename p) BACKUP_FOLDER_ID p]"
    using upload_file_trace [OF a, of E "[]" BACKUP_FOLDER_ID] tz by simp
  obtain r3 w3 where u: "upload_file E p [] BACKUP_FOLDER_ID ?z = (r3, w3)"
    by (cases "upload_file E p [] BACKUP_FOLDER_ID ?z")
  have t3: "trace w3 = trace w @ [LoadConfig, Create (os_path_basename p) BACKUP_FOLDER_ID p]"
    using up u by simp
  show ?thesis
  proof (cases r3)
    case (Inl e)
    then show ?thesis using u t3 by (simp add: create_backup_try_unfold [OF assms])
  next
    case (Inr v)
    obtain r4 w4 where rm: "os_remove p w3 = (r4, w4)" by (cases "os_remove p w3")
    have "trace w4 = trace w3" by (metis os_remove_trace rm snd_conv)
    then show ?thesis using u Inr rm t3
      by (cases r4) (simp_all add: create_backup_try_unfold [OF assms])
  qed
qed

section \<open>The transfer decisions\<close>



text \<open>
  Claim C2, as the code has it. Take a remote record whose name the mapping sends to
  a non-empty local path, the configuration loading and the record's time parsing.
  \<open>download_file\<close> issues exactly one download request if the local file is absent or
  older than the record, and none otherwise. The request overwrites the local file
  when the path can be opened for writing: the file then holds the bytes received.
  When the path cannot be opened (a missing parent directory, a directory at the path),
  \<open>download_file\<close> raises after the request and the filesystem is as it was.
\<close>

theorem download_file_policy:
  assumes "fs w CONFIG_FILE = Some cf" and "kind cf = Regular"
    and "json_load E (content cf) = Some cfg"
    and "map_of (file_mappings cfg) (name r) = Some p" and "p \<noteq> []"
    and "strptime E (modifiedTime r) = Some d"
  shows "trace (snd (download_file E (name r) r w)) = trace w @ [LoadConfig] @
           (if (case fs w p of None \<Rightarrow> True | Some f \<Rightarrow> mtime f < timestamp E d)
            then [GetMedia (file_id r)] else [])
    \<and> ((case fs w p of None \<Rightarrow> True | Some f \<Rightarrow> mtime f < timestamp E d \<and> kind f = Regular)
         \<and> \<not> cannot_open E p
        \<longrightarrow> (\<exists>f'. fs (snd (download_file E (name r) r w)) p = Some f'
                 \<and> content f' = received E (trace w @ [LoadConfig]) (file_id r)))
    \<and> ((case fs w p of None \<Rightarrow> cannot_open E p
          | Some f \<Rightarrow> mtime f < timestamp E d \<and> (cannot_open E p \<or> kind f = Directory))
        \<longrightarrow> (\<exists>e. fst (download_file E (name r) r w) = Inl (OSError e))
            \<and> fs (snd (download_file E (name r) r w)) = fs w)"
  using assms
  by (auto simp add: download_file_def load_config_ok fetch_media_def world_defs Let_def
      split: option.splits)

theorem download_file_policy_witness:
  "fs demo_world CONFIG_FILE = Some demo_config_file \<and> kind demo_config_file = Regular
   \<and> json_load demo_env (content demo_config_file) = Some demo_config
   \<and> map_of (file_mappings demo_config) (name demo_remote) = Some ''/local/a.txt''
   \<and> strptime demo_env (modifiedTime (demo_remote\<lparr>modifiedTime := ''2024-01-15T00:00:00.000Z''\<rparr>))
       = Some (timedelta_days 15)
   \<and> \<not> cannot_open demo_env ''/local/a.txt''
   \<and> trace (snd (download_file demo_env ''a.txt''
        (demo_remote\<lparr>modifiedTime := ''2024-01-15T00:00:00.000Z''\<rparr>) demo_world))
       = [LoadConfig, GetMedia ''id-a'']
   \<and> map_option content (fs (snd (download_file demo_env ''a.txt''
        (demo_remote\<lparr>modifiedTime := ''2024-01-15T00:00:00.000Z''\<rparr>) demo_world)) ''/local/a.txt'')
       = Some ''remote bytes''"
  using download_file_policy [of demo_world demo_config_file demo_env demo_config
      "demo_remote\<lparr>modifiedTime := ''2024-01-15T00:00:00.000Z''\<rparr>" "''/local/a.txt''"
      "timedelta_days 15"]
  by (auto simp add: demo_defs)

text \<open>
  The claim as stated covers every name present in the mapping. Line 86 tests the
  path with \<^verbatim>\<open>not local_file_path\<close>, which holds of the empty string as well: with the
  mapping \<^verbatim>\<open>{"a.txt": ""}\<close> the name is present and no local file exists at the path,
  yet \<open>download_file\<close> logs the warning and issues no request.
\<close>

theorem download_file_blank_path_counterexample:
  "map_of (file_mappings demo_config_blank) (name demo_remote) = Some []
   \<and> fs demo_world [] = None
   \<and> fst (download_file demo_env_blank (name demo_remote) demo_remote demo_world) = Inr ()
   \<and> trace (snd (download_file demo_env_blank (name demo_remote) demo_remote demo_world))
       = [LoadConfig]
   \<and> logs (snd (download_file demo_env_blank (name demo_remote) demo_remote demo_world))
       = [(INFO, ''Configuration file loaded successfully.''),
          (WARNING, ''File a.txt is not mapped for local sync.'')]"
  by (simp add: download_file_def load_config_def world_defs Let_def
      demo_config_blank_def demo_env_blank_def demo_defs)

text \<open>
  Claim C7. For a remote record whose name is not a key of the mapping,
  \<open>download_file\<close> returns normally, having issued no request and logged one warning
  (after the line that \<open>load_config\<close> logs), and the download loop goes on with the
  records that remain.
\<close>

theorem download_file_unmapped_skips:
  assumes "fs w CONFIG_FILE = Some cf" and "kind cf = Regular"
    and "json_load E (content cf) = Some cfg"
    and "map_of (file_mappings cfg) (name r) = None"
  shows "download_file E (name r) r w =
           (Inr (), w\<lparr>trace := trace w @ [LoadConfig],
              logs := logs w @ [(INFO, ''Configuration file loaded successfully.''),
                (WARNING, ''File '' @ name r @ '' is not mapped for local sync.'')]\<rparr>)
    \<and> download_all E (r # rest) w =
         download_all E rest (w\<lparr>trace := trace w @ [LoadConfig],
              logs := logs w @ [(INFO, ''Configuration file loaded successfully.''),
                (WARNING, ''File '' @ name r @ '' is not mapped for local sync.'')]\<rparr>)"
  using assms
  by (simp add: download_file_def load_config_ok world_defs)

theorem download_file_unmapped_skips_witness:
  "fs demo_world CONFIG_FILE = Some demo_config_file \<and> kind demo_config_file = Regular
   \<and> json_load demo_env (content demo_config_file) = Some demo_config
   \<and> map_of (file_mappings demo_config) (name (demo_remote\<lparr>name := ''b.txt''\<rparr>)) = None
   \<and> download_file demo_env ''b.txt'' (demo_remote\<lparr>name := ''b.txt''\<rparr>) demo_world =
       (Inr (), demo_world\<lparr>trace := [LoadConfig],
          logs := [(INFO, ''Configuration file loaded successfully.''),
                   (WARNING, ''File b.txt is not mapped for local sync.'')]\<rparr>)"
  using download_file_unmapped_skips [of demo_world demo_config_file demo_env demo_config
      "demo_remote\<lparr>name := ''b.txt''\<rparr>" "[]"]
  by (simp add: demo_defs)

section \<open>The backup\<close>

text \<open>
  Claim C3, as the code has it. When the listing of the backup folder succeeds and the
  times of its records parse, \<open>create_backup\<close> skips (it returns normally with nothing but the
  listing request in the trace and the filesystem as it was) if and only if some
  record of the listing is less than the interval older than the clock reading;
  otherwise, and in particular on an empty listing, it goes on into the block that
  writes the archive and uploads it. Whether that block reaches the upload is another
  matter: on an empty listing, if the configuration loads and the archive is written
  without error, what \<open>create_backup\<close> issues is the listing request, the load of the
  configuration and the create request for the archive.
\<close>

theorem create_backup_skip_iff:
  assumes "\<not> fails E (trace w) (ListFiles BACKUP_FOLDER_ID)"
    and "\<forall>f\<in>set (listing E (trace w) BACKUP_FOLDER_ID). strptime E (modifiedTime f) \<noteq> None"
  shows "((\<exists>f\<in>set (listing E (trace w) BACKUP_FOLDER_ID). \<exists>t.
             strptime E (modifiedTime f) = Some t
             \<and> clock E (ticks w) - t < timedelta_days BACKUP_INTERVAL_DAYS)
          \<longleftrightarrow> fst (create_backup E w) = Inr ()
              \<and> trace (snd (create_backup E w)) = trace w @ [ListFiles BACKUP_FOLDER_ID]
              \<and> fs (snd (create_backup E w)) = fs w)
    \<and> (\<not> (\<exists>f\<in>set (listing E (trace w) BACKUP_FOLDER_ID). \<exists>t.
             strptime E (modifiedTime f) = Some t
             \<and> clock E (ticks w) - t < timedelta_days BACKUP_INTERVAL_DAYS)
        \<longrightarrow> create_backup E w =
              create_backup_try E (backup_path E (clock E (ticks w)))
                (listing E (trace w) BACKUP_FOLDER_ID) (listed E w))
    \<and> (listing E (trace w) BACKUP_FOLDER_ID = []
        \<longrightarrow> create_backup E w =
              create_backup_try E (backup_path E (clock E (ticks w))) [] (listed E w)
          \<and> (\<forall>cf cfg. fs w CONFIG_FILE = Some cf \<and> kind cf = Regular
                \<and> json_load E (content cf) = Some cfg
                \<and> fst (write_zip E (backup_path E (clock E (ticks w)))
                         (map snd (file_mappings cfg)) (snd (load_config E (listed E w)))) = Inr ()
              \<longrightarrow> trace (snd (create_backup E w)) = trace w @
                    [ListFiles BACKUP_FOLDER_ID, LoadConfig,
                     Create (os_path_basename (backup_path E (clock E (ticks w))))
                       BACKUP_FOLDER_ID (backup_path E (clock E (ticks w)))]))"
proof -
  let ?files = "listing E (trace w) BACKUP_FOLDER_ID"
  let ?now = "clock E (ticks w)"
  let ?recent = "\<exists>f\<in>set ?files. \<exists>t. strptime E (modifiedTime f) = Some t
                   \<and> ?now - t < timedelta_days BACKUP_INTERVAL_DAYS"
  let ?attempt = "create_backup_try E (backup_path E ?now) ?files (listed E w)"
  note tr = listed_trace [OF assms(1)]
  note cases = create_backup_cases [OF assms]
  have no_skip: "trace (snd ?attempt) \<noteq> trace w @ [ListFiles BACKUP_FOLDER_ID]"
    using create_backup_try_not_skip [of E "backup_path E ?now" ?files "listed E w"] tr by simp
  have skip_iff: "?recent \<longleftrightarrow> fst (create_backup E w) = Inr ()
              \<and> trace (snd (create_backup E w)) = trace w @ [ListFiles BACKUP_FOLDER_ID]
              \<and> fs (snd (create_backup E w)) = fs w"
  proof (cases ?recent)
    case True
    then obtain msg where "create_backup E w = (Inr (), logging INFO msg (listed E w))"
      using cases by auto
    then show ?thesis using True tr by simp
  next
    case False
    then have "create_backup E w = ?attempt" using cases by auto
    then show ?thesis using False no_skip by simp
  qed
  have attempt: "\<not> ?recent \<longrightarrow> create_backup E w = ?attempt"
    using cases by auto
  have empty: "create_backup E w =
              create_backup_try E (backup_path E ?now) [] (listed E w)
          \<and> (\<forall>cf cfg. fs w CONFIG_FILE = Some cf \<and> kind cf = Regular
                \<and> json_load E (content cf) = Some cfg
                \<and> fst (write_zip E (backup_path E ?now)
                         (map snd (file_mappings cfg)) (snd (load_config E (listed E w)))) = Inr ()
              \<longrightarrow> trace (snd (create_backup E w)) = trace w @
                    [ListFiles BACKUP_FOLDER_ID, LoadConfig,
                     Create (os_path_basename (backup_path E ?now))
                       BACKUP_FOLDER_ID (backup_path E ?now)])"
    if e: "?files = []"
  proof (intro conjI allI impI)
    show cb: "create_backup E w = create_backup_try E (backup_path E ?now) [] (listed E w)"
      using attempt e by simp
    fix cf cfg
    assume h: "fs w CONFIG_FILE = Some cf \<and> kind cf = Regular
                \<and> json_load E (content cf) = Some cfg
                \<and> fst (write_zip E (backup_path E ?now)
                         (map snd (file_mappings cfg)) (snd (load_config E (listed E w)))) = Inr ()"
    have "trace (snd (create_backup_try E (backup_path E ?now) [] (listed E w)))
        = trace (listed E w) @ [LoadConfig,
            Create (os_path_basename (backup_path E ?now)) BACKUP_FOLDER_ID (backup_path E ?now)]"
      by (rule create_backup_try_uploads [of _ cf _ cfg]) (use h tr in simp_all)
    then show "trace (snd (create_backup E w)) = trace w @
                    [ListFiles BACKUP_FOLDER_ID, LoadConfig,
                     Create (os_path_basename (backup_path E ?now))
                       BACKUP_FOLDER_ID (backup_path E ?now)]"
      using cb tr by simp
  qed
  show ?thesis using skip_iff attempt empty by blast
qed

theorem create_backup_skip_iff_witness:
  "\<not> fails demo_env_backup (trace demo_world) (ListFiles BACKUP_FOLDER_ID)
   \<and> listing demo_env_backup (trace demo_world) BACKUP_FOLDER_ID = [demo_backup]
   \<and> strptime demo_env_backup (modifiedTime demo_backup) = Some (timedelta_days 15)
   \<and> clock demo_env_backup (ticks demo_world) = timedelta_days 20
   \<and> fst (create_backup demo_env_backup demo_world) = Inr ()
   \<and> trace (snd (create_backup demo_env_backup demo_world)) = [ListFiles BACKUP_FOLDER_ID]
   \<and> listing demo_env (trace demo_world) BACKUP_FOLDER_ID = []
   \<and> trace (snd (create_backup demo_env demo_world)) =
       [ListFiles BACKUP_FOLDER_ID, LoadConfig,
        Create ''backup_20240120_000000.zip'' BACKUP_FOLDER_ID ''/tmp/backup_20240120_000000.zip'']"
proof -
  have h1: "\<not> fails demo_env_backup (trace demo_world) (ListFiles BACKUP_FOLDER_ID)"
    by (simp add: demo_env_backup_def demo_defs)
  have h2: "\<forall>f\<in>set (listing demo_env_backup (trace demo_world) BACKUP_FOLDER_ID).
      strptime demo_env_backup (modifiedTime f) \<noteq> None"
    by (simp add: demo_env_backup_def demo_backup_def demo_defs)
  have ex: "\<exists>f\<in>set (listing demo_env_backup (trace demo_world) BACKUP_FOLDER_ID). \<exists>t.
      strptime demo_env_backup (modifiedTime f) = Some t
      \<and> clock demo_env_backup (ticks demo_world) - t < timedelta_days BACKUP_INTERVAL_DAYS"
    by (simp add: demo_env_backup_def demo_backup_def demo_defs BACKUP_INTERVAL_DAYS_def)
  have skip: "fst (create_backup demo_env_backup demo_world) = Inr ()
      \<and> trace (snd (create_backup demo_env_backup demo_world))
          = trace demo_world @ [ListFiles BACKUP_FOLDER_ID]"
    using create_backup_skip_iff [OF h1 h2] ex by blast
  have g1: "\<not> fails demo_env (trace demo_world) (ListFiles BACKUP_FOLDER_ID)"
    by (simp add: demo_defs)
  have g0: "listing demo_env (trace demo_world) BACKUP_FOLDER_ID = []"
    by (simp add: demo_defs BACKUP_FOLDER_ID_def)
  have g2: "\<forall>f\<in>set (listing demo_env (trace demo_world) BACKUP_FOLDER_ID).
      strptime demo_env (modifiedTime f) \<noteq> None"
    by (simp add: g0)
  have p: "backup_path demo_env (clock demo_env (ticks demo_world))
      = ''/tmp/backup_20240120_000000.zip''"
    by (simp add: backup_path_def os_path_join_def demo_defs)
  have c: "fs demo_world CONFIG_FILE = Some demo_config_file \<and> kind demo_config_file = Regular
      \<and> json_load demo_env (content demo_config_file) = Some demo_config
      \<and> fst (write_zip demo_env (backup_path demo_env (clock demo_env (ticks demo_world)))
               (map snd (file_mappings demo_config))
               (snd (load_config demo_env (listed demo_env demo_world)))) = Inr ()"
    unfolding p
    by (simp add: write_zip_def load_config_def listed_def list_files_in_drive_def
        datetime_now_def world_defs demo_defs Let_def)
  have att: "trace (snd (create_backup demo_env demo_world)) = trace demo_world @
       [ListFiles BACKUP_FOLDER_ID, LoadConfig,
        Create (os_path_basename (backup_path demo_env (clock demo_env (ticks demo_world))))
          BACKUP_FOLDER_ID (backup_path demo_env (clock demo_env (ticks demo_world)))]"
    using create_backup_skip_iff [OF g1 g2] g0 c by blast
  have b: "os_path_basename ''/tmp/backup_20240120_000000.zip'' = ''backup_20240120_000000.zip''"
    by (simp add: os_path_basename_def)
  have t0: "trace demo_world = []" by (simp add: demo_defs)
  have cl: "clock demo_env_backup (ticks demo_world) = timedelta_days 20"
    by (simp add: demo_env_backup_def demo_defs)
  have l1: "listing demo_env_backup (trace demo_world) BACKUP_FOLDER_ID = [demo_backup]"
    by (simp add: demo_env_backup_def demo_defs)
  have s1: "strptime demo_env_backup (modifiedTime demo_backup) = Some (timedelta_days 15)"
    by (simp add: demo_env_backup_def demo_backup_def demo_defs)
  show ?thesis
    using skip att h1 g0 cl l1 s1 unfolding p b t0 by simp
qed

text \<open>
  The claim as stated says that on an empty listing \<open>create_backup\<close> always goes on
  to build the zip and upload it. Every error within the block leaves it before the
  upload: with an empty listing and a mapped file stamped before 1980,
  \<^verbatim>\<open>backup_zip.write\<close> raises, \<open>create_backup\<close> raises with it, no upload request is
  issued and the archive stays on disk.
\<close>

theorem create_backup_empty_listing_counterexample:
  "listing demo_env (trace demo_world_1979) BACKUP_FOLDER_ID = []
   \<and> fst (create_backup demo_env demo_world_1979)
       = Inl (ValueError ''cannot add to the archive: /local/a.txt'')
   \<and> trace (snd (create_backup demo_env demo_world_1979))
       = [ListFiles BACKUP_FOLDER_ID, LoadConfig]
   \<and> os_path_isfile (snd (create_backup demo_env demo_world_1979))
         ''/tmp/backup_20240120_000000.zip''"
  by (simp add: create_backup_def create_backup_try_def write_zip_def load_config_def
      list_files_in_drive_def datetime_now_def backup_path_def os_path_join_def
      world_defs demo_world_1979_def demo_defs BACKUP_FOLDER_ID_def Let_def)




section \<open>The main loop\<close>

text \<open>
  Claim C5, as the code has it. One pass of the loop body ends in \<^verbatim>\<open>time.sleep(300)\<close>
  exactly when it returns: the events it adds then end with the sleep and hold no
  other. When it raises, it adds no sleep at all. In particular, when \<open>sync\<close> raises,
  the pass raises the same error in the same world, and the loop ends there with that
  error: nothing in the main block catches it.
\<close>

theorem main_iter_idle:
  "(\<forall>e w1. sync E (logging INFO ''Starting sync operation...'' w) = (Inl e, w1)
      \<longrightarrow> main_iter E lbt w = (Inl e, w1) \<and> main_loop E (Suc k) lbt w = (Some e, w1))
   \<and> (\<exists>evs. trace (snd (main_iter E lbt w)) = trace w @ evs
        \<and> (case fst (main_iter E lbt w) of
             Inl e \<Rightarrow> list_all (\<lambda>ev. \<not> is_sleep ev) evs
           | Inr t \<Rightarrow> evs \<noteq> [] \<and> last evs = Sleep 300
                      \<and> list_all (\<lambda>ev. \<not> is_sleep ev) (butlast evs)))"
proof (rule conjI)
  show "\<forall>e w1. sync E (logging INFO ''Starting sync operation...'' w) = (Inl e, w1)
      \<longrightarrow> main_iter E lbt w = (Inl e, w1) \<and> main_loop E (Suc k) lbt w = (Some e, w1)"
    by (simp add: main_iter_def)
next
  let ?w = "logging INFO ''Starting sync operation...'' w"
  obtain r1 w1 where sy: "sync E ?w = (r1, w1)" by (cases "sync E ?w")
  obtain evs where evs: "trace w1 = trace w @ evs" "list_all (\<lambda>ev. \<not> is_sleep ev) evs"
    using sync_adds [of ?w E] sy by (auto simp: adds_def)
  show "\<exists>evs. trace (snd (main_iter E lbt w)) = trace w @ evs
        \<and> (case fst (main_iter E lbt w) of
             Inl e \<Rightarrow> list_all (\<lambda>ev. \<not> is_sleep ev) evs
           | Inr t \<Rightarrow> evs \<noteq> [] \<and> last evs = Sleep 300
                      \<and> list_all (\<lambda>ev. \<not> is_sleep ev) (butlast evs))"
  proof (cases r1)
    case (Inl e)
    then show ?thesis using sy evs by (simp add: main_iter_def)
  next
    case (Inr u)
    let ?w2 = "w1\<lparr>ticks := Suc (ticks w1)\<rparr>"
    show ?thesis
    proof (cases "clock E (ticks w1) - lbt \<ge> timedelta_days BACKUP_INTERVAL_DAYS")
      case False
      then show ?thesis using sy Inr evs
        by (simp add: main_iter_def datetime_now_def idle_def time_sleep_def)
    next
      case True
      then have m: "main_iter E lbt w = main_backup E ?w2"
        using sy Inr by (simp add: main_iter_def datetime_now_def)
      obtain evs' where evs': "trace (snd (main_backup E ?w2)) = trace ?w2 @ evs'"
          "case fst (main_backup E ?w2) of
             Inl e \<Rightarrow> list_all (\<lambda>ev. \<not> is_sleep ev) evs'
           | Inr t \<Rightarrow> evs' \<noteq> [] \<and> last evs' = Sleep 300
                      \<and> list_all (\<lambda>ev. \<not> is_sleep ev) (butlast evs')"
        using main_backup_shape [of E ?w2] by blast
      have "trace (snd (main_iter E lbt w)) = trace w @ (evs @ evs')"
        using m evs' evs by simp
      moreover have "case fst (main_iter E lbt w) of
             Inl e \<Rightarrow> list_all (\<lambda>ev. \<not> is_sleep ev) (evs @ evs')
           | Inr t \<Rightarrow> evs @ evs' \<noteq> [] \<and> last (evs @ evs') = Sleep 300
                      \<and> list_all (\<lambda>ev. \<not> is_sleep ev) (butlast (evs @ evs'))"
        using m evs' evs by (auto simp: butlast_append split: sum.splits)
      ultimately show ?thesis by blast
    qed
  qed
qed


theorem main_iter_idle_witness:
  "fst (sync demo_env_down (logging INFO ''Starting sync operation...'' demo_world))
     = Inl (HttpError ''request failed'')
   \<and> main_loop demo_env_down 1 0 demo_world =
       (Some (HttpError ''request failed''),
        snd (sync demo_env_down (logging INFO ''Starting sync operation...'' demo_world)))"
proof -
  let ?s = "sync demo_env_down (logging INFO ''Starting sync operation...'' demo_world)"
  have f: "fst ?s = Inl (HttpError ''request failed'')"
    by (simp add: sync_def load_config_def list_files_in_drive_def
      world_defs demo_env_down_def demo_defs Let_def)
  then have "?s = (Inl (HttpError ''request failed''), snd ?s)"
    by (metis prod.collapse)
  then have "main_loop demo_env_down (Suc 0) 0 demo_world
      = (Some (HttpError ''request failed''), snd ?s)"
    using main_iter_idle [of demo_env_down demo_world 0 0] by blast
  then show ?thesis using f by simp
qed

text \<open>
  The claim as stated says that the loop goes to sleep after a sync attempt that
  raised as well. With the Drive service unreachable, \<open>sync\<close> raises at its listing
  request; the pass raises with it, its trace holds the two events of \<open>sync\<close> and no
  sleep, and the loop is over after this one pass.
\<close>

theorem main_iter_raise_counterexample:
  "fst (sync demo_env_down (logging INFO ''Starting sync operation...'' demo_world))
     = Inl (HttpError ''request failed'')
   \<and> fst (main_iter demo_env_down 0 demo_world) = Inl (HttpError ''request failed'')
   \<and> trace (snd (main_iter demo_env_down 0 demo_world)) = [LoadConfig, ListFiles ''F'']
   \<and> fst (main_loop demo_env_down 3 0 demo_world) = Some (HttpError ''request failed'')"
  by (simp add: numeral_3_eq_3 main_iter_def sync_def load_config_def list_files_in_drive_def
      world_defs demo_env_down_def demo_defs Let_def)

text \<open>
  Claim C10, as the code has it. \<open>main_init\<close> sets \<^verbatim>\<open>last_backup_time\<close> one interval
  before its clock reading. So in the first pass, if \<open>sync\<close> returns and the clock has
  not gone back since, the test of line 179 holds and \<open>create_backup\<close> is called: the
  pass is what \<open>create_backup\<close> does, followed by the reading of the clock that
  becomes \<^verbatim>\<open>last_backup_time\<close> and by the sleep when it returns. \<open>create_backup\<close>
  takes no timer: when its listing succeeds and the times parse, the pass stops at the
  listing request and the sleep (no archive) if and only if the listing holds a record
  less than the interval older than the clock reading of \<open>create_backup\<close>.
\<close>

theorem first_iteration_backup:
  assumes "sync E (logging INFO ''Starting sync operation...'' (snd (main_init E w))) = (Inr u, w1)"
    and "clock E (ticks w) \<le> clock E (ticks w1)"
  shows "main_iter E (fst (main_init E w)) (snd (main_init E w)) =
           (case create_backup E (logging INFO ''Creating backup...'' (snd (datetime_now E w1))) of
              (Inl e, w3) \<Rightarrow> (Inl e, w3)
            | (Inr v, w3) \<Rightarrow> (Inr (clock E (ticks w3)), idle (snd (datetime_now E w3))))
    \<and> (\<not> fails E (trace w1) (ListFiles BACKUP_FOLDER_ID)
        \<and> list_all (\<lambda>f. strptime E (modifiedTime f) \<noteq> None)
            (listing E (trace w1) BACKUP_FOLDER_ID)
        \<longrightarrow> ((\<exists>f\<in>set (listing E (trace w1) BACKUP_FOLDER_ID). \<exists>t.
                 strptime E (modifiedTime f) = Some t
                 \<and> clock E (Suc (ticks w1)) - t < timedelta_days BACKUP_INTERVAL_DAYS)
             \<longleftrightarrow> trace (snd (main_iter E (fst (main_init E w)) (snd (main_init E w))))
                   = trace w1 @ [ListFiles BACKUP_FOLDER_ID, Sleep 300]))"
proof -
  let ?w2 = "logging INFO ''Creating backup...'' (snd (datetime_now E w1))"
  let ?it = "main_iter E (fst (main_init E w)) (snd (main_init E w))"
  have due: "clock E (ticks w1) - fst (main_init E w) \<ge> timedelta_days BACKUP_INTERVAL_DAYS"
    using assms(2) by (simp add: main_init_def datetime_now_def)
  have it: "?it = main_backup E (snd (datetime_now E w1))"
    using assms(1) due by (simp add: main_iter_def datetime_now_def)
  have first: "?it = (case create_backup E ?w2 of
              (Inl e, w3) \<Rightarrow> (Inl e, w3)
            | (Inr v, w3) \<Rightarrow> (Inr (clock E (ticks w3)), idle (snd (datetime_now E w3))))"
    unfolding it by (simp add: main_backup_def datetime_now_def split: prod.splits sum.splits)
  have tw2: "trace ?w2 = trace w1" "ticks ?w2 = Suc (ticks w1)"
    by (simp_all add: datetime_now_def)
  have second: "(\<exists>f\<in>set (listing E (trace w1) BACKUP_FOLDER_ID). \<exists>t.
                 strptime E (modifiedTime f) = Some t
                 \<and> clock E (Suc (ticks w1)) - t < timedelta_days BACKUP_INTERVAL_DAYS)
             \<longleftrightarrow> trace (snd ?it) = trace w1 @ [ListFiles BACKUP_FOLDER_ID, Sleep 300]"
    if ok: "\<not> fails E (trace w1) (ListFiles BACKUP_FOLDER_ID)"
      and parse: "list_all (\<lambda>f. strptime E (modifiedTime f) \<noteq> None)
            (listing E (trace w1) BACKUP_FOLDER_ID)"
  proof -
    have ok': "\<not> fails E (trace ?w2) (ListFiles BACKUP_FOLDER_ID)" using ok tw2 by simp
    have parse': "\<forall>f\<in>set (listing E (trace ?w2) BACKUP_FOLDER_ID).
        strptime E (modifiedTime f) \<noteq> None"
      using parse tw2 by (simp add: list_all_iff)
    note cases = create_backup_cases [OF ok' parse', unfolded tw2]
    have lt: "trace (listed E ?w2) = trace w1 @ [ListFiles BACKUP_FOLDER_ID]"
      using listed_trace [OF ok'] tw2 by simp
    show ?thesis
    proof (cases "\<exists>f\<in>set (listing E (trace w1) BACKUP_FOLDER_ID). \<exists>t.
                 strptime E (modifiedTime f) = Some t
                 \<and> clock E (Suc (ticks w1)) - t < timedelta_days BACKUP_INTERVAL_DAYS")
      case True
      then obtain msg where "create_backup E ?w2 = (Inr (), logging INFO msg (listed E ?w2))"
        using cases by auto
      then have "trace (snd ?it) = trace w1 @ [ListFiles BACKUP_FOLDER_ID, Sleep 300]"
        unfolding first using lt by (simp add: idle_def time_sleep_def datetime_now_def)
      then show ?thesis using True by simp
    next
      case False
      then have cb: "create_backup E ?w2 =
          create_backup_try E (backup_path E (clock E (Suc (ticks w1))))
            (listing E (trace w1) BACKUP_FOLDER_ID) (listed E ?w2)"
        using cases by auto
      obtain evs where evs: "trace (snd (create_backup E ?w2))
          = trace w1 @ ListFiles BACKUP_FOLDER_ID # LoadConfig # evs"
        using create_backup_try_adds [of E "backup_path E (clock E (Suc (ticks w1)))"
            "listing E (trace w1) BACKUP_FOLDER_ID" "listed E ?w2"] lt
        unfolding cb by auto
      obtain r3 w3 where r3: "create_backup E ?w2 = (r3, w3)"
        by (cases "create_backup E ?w2")
      have "trace (snd ?it) \<noteq> trace w1 @ [ListFiles BACKUP_FOLDER_ID, Sleep 300]"
        unfolding first using evs r3
        by (cases r3) (simp_all add: idle_def time_sleep_def datetime_now_def)
      then show ?thesis using False by simp
    qed
  qed
  show ?thesis using first second by blast
qed


theorem first_iteration_backup_witness:
  "fst (sync demo_env (logging INFO ''Starting sync operation...''
          (snd (main_init demo_env demo_world)))) = Inr ()
   \<and> clock demo_env (ticks demo_world)
       \<le> clock demo_env (ticks (snd (sync demo_env (logging INFO ''Starting sync operation...''
            (snd (main_init demo_env demo_world))))))
   \<and> main_iter demo_env (fst (main_init demo_env demo_world)) (snd (main_init demo_env demo_world)) =
       (case create_backup demo_env (logging INFO ''Creating backup...''
               (snd (datetime_now demo_env (snd (sync demo_env
                  (logging INFO ''Starting sync operation...''
                     (snd (main_init demo_env demo_world)))))))) of
          (Inl e, w3) \<Rightarrow> (Inl e, w3)
        | (Inr v, w3) \<Rightarrow> (Inr (clock demo_env (ticks w3)), idle (snd (datetime_now demo_env w3))))"
proof -
  let ?s = "sync demo_env (logging INFO ''Starting sync operation...''
          (snd (main_init demo_env demo_world)))"
  have f: "fst ?s = Inr ()"
    by (simp add: sync_eval main_init_def datetime_now_def demo_defs)
  then have s: "?s = (Inr (), snd ?s)" by (metis prod.collapse)
  have c: "clock demo_env (ticks demo_world) \<le> clock demo_env (ticks (snd ?s))"
    by (simp add: demo_defs)
  show ?thesis
    using first_iteration_backup [OF s c] f c by blast
qed

text \<open>
  The claim as stated says that \<open>create_backup\<close> is always called in the first pass.
  It is not called when the first \<open>sync\<close> raises (the error ends the process before
  line 179), nor when the wall clock, which \<^verbatim>\<open>datetime.now()\<close> reads, has been set
  back between line 173 and line 179: the pass then ends in the sleep with no request
  to the backup folder.
\<close>

theorem first_iteration_no_backup_counterexample:
  "fst (main_iter demo_env_down (fst (main_init demo_env_down demo_world))
          (snd (main_init demo_env_down demo_world))) = Inl (HttpError ''request failed'')
   \<and> trace (snd (main_iter demo_env_down (fst (main_init demo_env_down demo_world))
          (snd (main_init demo_env_down demo_world)))) = [LoadConfig, ListFiles ''F'']
   \<and> clock demo_env_back 1 < clock demo_env_back 0
   \<and> fst (main_iter demo_env_back (fst (main_init demo_env_back demo_world))
          (snd (main_init demo_env_back demo_world))) = Inr (timedelta_days 10)
   \<and> trace (snd (main_iter demo_env_back (fst (main_init demo_env_back demo_world))
          (snd (main_init demo_env_back demo_world))))
       = [LoadConfig, ListFiles ''F'', Update ''id-a'' ''/local/a.txt'', LoadConfig, Sleep 300]"
  by (simp add: main_iter_def main_init_def datetime_now_def idle_def time_sleep_def sync_eval
      demo_env_down_def demo_env_back_def demo_defs BACKUP_INTERVAL_DAYS_def)

section \<open>Names and the configuration in a sync pass\<close>





text \<open>
  Claim C6, as the code has it. \<open>sync\<close> loads the configuration once, and
  \<open>download_file\<close> loads it again for every remote record: a pass that returns has
  called \<open>load_config\<close> once more than the listing has records. No function changes a
  mapping it has loaded (the embedding passes it as a value), and the configuration
  file is as it was after the pass, unless the mapping names it as a local path.
\<close>

theorem sync_loads_config:
  assumes "fs w CONFIG_FILE = Some cf" and "kind cf = Regular"
    and "json_load E (content cf) = Some cfg"
    and "sync E w = (Inr u, w')"
  shows "count_list (trace w') LoadConfig
           = count_list (trace w) LoadConfig + 1
             + length (listing E (trace w @ [LoadConfig]) (folder_id cfg))
    \<and> (CONFIG_FILE \<notin> snd ` set (file_mappings cfg) \<longrightarrow> fs w' CONFIG_FILE = fs w CONFIG_FILE)"
proof -
  let ?dfs = "listing E (trace w @ [LoadConfig]) (folder_id cfg)"
  obtain w1 w2 w3 w4 where st:
      "load_config E w = (Inr cfg, w1)"
      "list_files_in_drive E (folder_id cfg) w1 = (Inr ?dfs, w2)"
      "upload_all E (map snd (file_mappings cfg)) ?dfs (folder_id cfg) w2 = (Inr (), w3)"
      "download_all E ?dfs w3 = (Inr (), w4)"
      "w' = logging INFO ''Sync operation completed.'' w4"
    using sync_stages [OF assms] by blast
  have t1: "trace w1 = trace w @ [LoadConfig]" by (metis load_config_trace st(1) snd_conv)
  have t2: "trace w2 = trace w1 @ [ListFiles (folder_id cfg)]"
    by (metis list_files_trace st(2) snd_conv)
  have "adds is_upload (trace w2) (trace w3)"
    by (metis upload_all_adds st(3) snd_conv)
  then have t3: "count_list (trace w3) LoadConfig = count_list (trace w2) LoadConfig"
    by (rule count_adds_none) (simp add: is_upload_def)
  have t4: "count_list (trace w4) LoadConfig = count_list (trace w3) LoadConfig + length ?dfs"
    by (rule download_all_loads [OF st(4)])
  have count: "count_list (trace w') LoadConfig
           = count_list (trace w) LoadConfig + 1 + length ?dfs"
    using t1 t2 t3 t4 st(5) by simp
  have f1: "fs w1 = fs w" by (metis load_config_fs st(1) snd_conv)
  have f2: "fs w2 = fs w1" by (metis list_files_fs st(2) snd_conv)
  have f3: "fs w3 = fs w2" by (metis upload_all_fs st(3) snd_conv)
  have kept: "fs w' CONFIG_FILE = fs w CONFIG_FILE"
    if "CONFIG_FILE \<notin> snd ` set (file_mappings cfg)"
  proof -
    have c3: "fs w3 CONFIG_FILE = Some cf" using f1 f2 f3 assms(1) by simp
    have "fs (snd (download_all E ?dfs w3)) CONFIG_FILE = Some cf"
      by (rule download_all_config_kept [OF c3 assms(2,3) that])
    then show ?thesis using st(4,5) assms(1) by simp
  qed
  show ?thesis using count kept by blast
qed

theorem sync_loads_config_witness:
  "fs demo_world CONFIG_FILE = Some demo_config_file \<and> kind demo_config_file = Regular
   \<and> json_load demo_env (content demo_config_file) = Some demo_config
   \<and> fst (sync demo_env demo_world) = Inr ()
   \<and> CONFIG_FILE \<notin> snd ` set (file_mappings demo_config)
   \<and> count_list (trace (snd (sync demo_env demo_world))) LoadConfig = 2
   \<and> fs (snd (sync demo_env demo_world)) CONFIG_FILE = Some demo_config_file"
proof -
  have a1: "fs demo_world CONFIG_FILE = Some demo_config_file" by (simp add: demo_defs)
  have a2: "kind demo_config_file = Regular" by (simp add: demo_defs)
  have a3: "json_load demo_env (content demo_config_file) = Some demo_config"
    by (simp add: demo_defs)
  have f: "fst (sync demo_env demo_world) = Inr ()" by (simp add: sync_eval demo_defs)
  then have a4: "sync demo_env demo_world = (Inr (), snd (sync demo_env demo_world))"
    by (metis prod.collapse)
  have n: "CONFIG_FILE \<notin> snd ` set (file_mappings demo_config)" by (simp add: demo_defs)
  have l: "length (listing demo_env (trace demo_world @ [LoadConfig]) (folder_id demo_config)) = 1"
    by (simp add: demo_defs)
  have t: "count_list (trace demo_world) LoadConfig = 0" by (simp add: demo_defs)
  show ?thesis
    using sync_loads_config [OF a1 a2 a3 a4] a1 a2 a3 f n l t by simp
qed

text \<open>
  The claim as stated says one load per cycle. In the scenario of the specification
  the listing has one record, and the pass loads the configuration twice.
\<close>

theorem sync_loads_config_counterexample:
  "fst (sync demo_env demo_world) = Inr ()
   \<and> listing demo_env [LoadConfig] ''F'' = [demo_remote]
   \<and> trace (snd (sync demo_env demo_world))
       = [LoadConfig, ListFiles ''F'', Update ''id-a'' ''/local/a.txt'', LoadConfig]
   \<and> count_list (trace (snd (sync demo_env demo_world))) LoadConfig = 2"
  by (simp add: sync_eval demo_defs)

section \<open>Equal time stamps\<close>

text \<open>
  Claim C4, as the code has it. Take a mapped file that is present on both sides under
  one name: the key of its entry is the basename of its path and the name of a remote
  record, and the local modification time equals the record's. If this entry is the
  only one with that basename or that path, the record is the only one of its name
  and identifier in the listing, and the configuration file is not a mapped path, then
  a sync pass, whether it returns or raises, issues no create request under that name
  or from that path, no update request for that record or from that path, and no
  download request for that record.
\<close>

theorem equal_times_no_transfer:
  assumes "fs w CONFIG_FILE = Some cf" and "kind cf = Regular"
    and "json_load E (content cf) = Some cfg"
    and "sole_entry cfg k p"
    and "sole_record E (listing E (trace w @ [LoadConfig]) (folder_id cfg)) r k d"
    and "fs w p = Some f" and "timestamp E d = mtime f"
  shows "adds (\<lambda>ev. \<not> concerns k (file_id r) p ev) (trace w) (trace (snd (sync E w)))"
proof -
  let ?P = "\<lambda>ev. \<not> concerns k (file_id r) p ev"
  let ?dfs = "listing E (trace w @ [LoadConfig]) (folder_id cfg)"
  let ?w1 = "w\<lparr>trace := trace w @ [LoadConfig],
           logs := logs w @ [(INFO, ''Configuration file loaded successfully.'')]\<rparr>"
  have l: "load_config E w = (Inr cfg, ?w1)" by (rule load_config_ok [OF assms(1,2,3)])
  obtain r2 w2 where ls: "list_files_in_drive E (folder_id cfg) ?w1 = (r2, w2)"
    by (cases "list_files_in_drive E (folder_id cfg) ?w1")
  have t2: "trace w2 = trace w @ [LoadConfig, ListFiles (folder_id cfg)]"
    using list_files_trace [of E "folder_id cfg" ?w1] ls by simp
  have f2: "fs w2 = fs w"
    using list_files_fs [of E "folder_id cfg" ?w1] ls by simp
  have a2: "adds ?P (trace w) (trace w2)"
    using t2 by (simp add: adds_def concerns_def)
  show ?thesis
  proof (cases r2)
    case (Inl e)
    then show ?thesis using l ls a2 by (simp add: sync_def)
  next
    case (Inr dfs)
    then have dfs: "dfs = ?dfs"
      using list_files_Inr [of E "folder_id cfg" ?w1 dfs w2] ls by simp
    obtain r3 w3 where up: "upload_all E (map snd (file_mappings cfg)) ?dfs (folder_id cfg) w2
        = (r3, w3)"
      by (cases "upload_all E (map snd (file_mappings cfg)) ?dfs (folder_id cfg) w2")
    have p2: "fs w2 p = Some f" using f2 assms(6) by simp
    have "adds ?P (trace w2) (trace (snd (upload_all E (map snd (file_mappings cfg)) ?dfs
            (folder_id cfg) w2)))"
      by (rule upload_all_spares [OF assms(4,5) p2 assms(7)]) simp
    then have a3: "adds ?P (trace w) (trace w3)" using up a2 adds_trans by fastforce
    have f3: "fs w3 = fs w"
      using upload_all_fs [of E "map snd (file_mappings cfg)" ?dfs "folder_id cfg" w2] up f2
      by simp
    show ?thesis
    proof (cases r3)
      case (Inl e)
      then show ?thesis using l ls Inr dfs up a3 by (simp add: sync_def)
    next
      case r3: (Inr v)
      obtain r4 w4 where dn: "download_all E ?dfs w3 = (r4, w4)"
        by (cases "download_all E ?dfs w3")
      have c3: "fs w3 CONFIG_FILE = Some cf" and p3: "fs w3 p = Some f"
        using f3 assms(1,6) by simp_all
      have "adds ?P (trace w3) (trace (snd (download_all E ?dfs w3)))"
        by (rule download_all_spares [OF assms(2,3,4,5,7) c3 p3]) simp
      then have a4: "adds ?P (trace w) (trace w4)" using dn a3 adds_trans by fastforce
      show ?thesis using l ls Inr dfs up r3 dn a4 by (cases r4) (simp_all add: sync_def)
    qed
  qed
qed

theorem equal_times_no_transfer_witness:
  "fs (demo_world\<lparr>fs := (fs demo_world)(''/local/a.txt'' \<mapsto> demo_local\<lparr>mtime := 3 * 86400\<rparr>)\<rparr>)
      CONFIG_FILE = Some demo_config_file
   \<and> kind demo_config_file = Regular
   \<and> json_load demo_env (content demo_config_file) = Some demo_config
   \<and> sole_entry demo_config ''a.txt'' ''/local/a.txt''
   \<and> sole_record demo_env (listing demo_env [LoadConfig] (folder_id demo_config)) demo_remote
        ''a.txt'' (timedelta_days 3)
   \<and> timestamp demo_env (timedelta_days 3) = mtime (demo_local\<lparr>mtime := 3 * 86400\<rparr>)
   \<and> adds (\<lambda>ev. \<not> concerns ''a.txt'' ''id-a'' ''/local/a.txt'' ev) []
        (trace (snd (sync demo_env
           (demo_world\<lparr>fs := (fs demo_world)(''/local/a.txt'' \<mapsto> demo_local\<lparr>mtime := 3 * 86400\<rparr>)\<rparr>))))
   \<and> trace (snd (sync demo_env
           (demo_world\<lparr>fs := (fs demo_world)(''/local/a.txt'' \<mapsto> demo_local\<lparr>mtime := 3 * 86400\<rparr>)\<rparr>)))
       = [LoadConfig, ListFiles ''F'', LoadConfig]"
proof -
  let ?f = "demo_local\<lparr>mtime := 3 * 86400\<rparr>"
  let ?w = "demo_world\<lparr>fs := (fs demo_world)(''/local/a.txt'' \<mapsto> ?f)\<rparr>"
  have a1: "fs ?w CONFIG_FILE = Some demo_config_file" by (simp add: demo_defs)
  have a2: "kind demo_config_file = Regular" by (simp add: demo_defs)
  have a3: "json_load demo_env (content demo_config_file) = Some demo_config"
    by (simp add: demo_defs)
  have a4: "sole_entry demo_config ''a.txt'' ''/local/a.txt''"
    by (simp add: sole_entry_def os_path_basename_def demo_defs)
  have a5: "sole_record demo_env (listing demo_env (trace ?w @ [LoadConfig]) (folder_id demo_config))
      demo_remote ''a.txt'' (timedelta_days 3)"
    by (simp add: sole_record_def demo_defs)
  have a6: "fs ?w ''/local/a.txt'' = Some ?f" by simp
  have a7: "timestamp demo_env (timedelta_days 3) = mtime ?f" by (simp add: demo_defs)
  have t: "trace ?w = []" by (simp add: demo_defs)
  have i: "file_id demo_remote = ''id-a''" by (simp add: demo_defs)
  have tr: "trace (snd (sync demo_env ?w)) = [LoadConfig, ListFiles ''F'', LoadConfig]"
    by (simp add: sync_eval demo_defs)
  show ?thesis
    using equal_times_no_transfer [OF a1 a2 a3 a4 a5 a6 a7] a1 a2 a3 a4 a5 a7 tr
    unfolding t i by simp
qed

text \<open>
  The claim as stated has no such condition. \<open>upload_file\<close> matches a remote record by
  the basename of the local path: with a second entry \<^verbatim>\<open>"b.txt": "/y/a.txt"\<close> whose
  file is newer, the pass updates the remote record \<^verbatim>\<open>a.txt\<close> from \<^verbatim>\<open>/y/a.txt\<close>,
  although the file mapped as \<^verbatim>\<open>a.txt\<close> has the time of the record.
\<close>

theorem equal_times_twins_counterexample:
  "map_of (file_mappings demo_config_twins) ''a.txt'' = Some ''/x/a.txt''
   \<and> listing demo_env_twins [LoadConfig] ''F'' = [demo_remote]
   \<and> name demo_remote = ''a.txt''
   \<and> strptime demo_env_twins (modifiedTime demo_remote) = Some (timedelta_days 3)
   \<and> map_option mtime (fs demo_world_twins ''/x/a.txt'')
       = Some (timestamp demo_env_twins (timedelta_days 3))
   \<and> trace (snd (sync demo_env_twins demo_world_twins))
       = [LoadConfig, ListFiles ''F'', Update (file_id demo_remote) ''/y/a.txt'', LoadConfig]"
  by (simp add: sync_eval twins_defs demo_defs)

end
